theory Spec2Isabelle
  imports Main "HOL-Library.Word" "HOL-Library.Stream"
begin

section \<open>Machine integers and byte strings\<close>

text \<open>
  The code is read for a 64-bit target: \<open>size_t\<close> and \<open>uint64_t\<close> are 64-bit unsigned
  words whose addition wraps, \<open>off_t\<close> is a signed 64-bit integer.
\<close>

type_synonym u8 = "8 word"
type_synonym u16 = "16 word"
type_synonym u32 = "32 word"
type_synonym u64 = "64 word"

text \<open>Little-endian reading and writing of an unsigned integer in a byte string.\<close>

fun le_nat :: "u8 list \<Rightarrow> nat" where
  "le_nat [] = 0"
| "le_nat (b # bs) = unat b + 256 * le_nat bs"

fun le_bytes :: "nat \<Rightarrow> nat \<Rightarrow> u8 list" where
  "le_bytes 0 v = []"
| "le_bytes (Suc n) v = of_nat (v mod 256) # le_bytes n (v div 256)"

definition slice :: "'a list \<Rightarrow> nat \<Rightarrow> nat \<Rightarrow> 'a list" where
  "slice xs off n = take n (drop off xs)"

text \<open>
  \<open>memcmp(a, b, n)\<close>: zero exactly when the first \<open>n\<close> bytes agree, otherwise the sign
  of the first difference. The reader calls it on two 32-byte digests.
\<close>

fun memcmp :: "u8 list \<Rightarrow> u8 list \<Rightarrow> nat \<Rightarrow> int" where
  "memcmp (a # as) (b # bs) (Suc n) =
     (if a = b then memcmp as bs n else if a < b then - 1 else 1)"
| "memcmp as bs n = 0"

section \<open>The byte source: a file descriptor\<close>

text \<open>
  The reader works on a file descriptor through \<open>lseek\<close> and \<open>read\<close>. The descriptor is
  a state that every call takes and returns: the bytes of the file, the file offset,
  whether the descriptor can seek, what the next \<open>read\<close> calls will do (the kernel may
  deliver fewer bytes than asked for, or fail), and the log of the calls issued so far
  (a \<open>read\<close> is logged with the file offset it starts at and the length asked for).
\<close>

datatype read_behaviour = Deliver nat | ReadFails

datatype syscall = SysLseekEnd | SysLseekSet int | SysRead nat nat

record fd_state =
  contents :: "u8 list"
  seekable :: bool
  file_offset :: nat
  upcoming :: "read_behaviour list"
  calls :: "syscall list"

text \<open>
  \<open>lseek(fd, 0, SEEK_END)\<close>: the size of the file, or \<open>-1\<close> when the descriptor cannot
  seek or the size does not fit \<open>off_t\<close> (EOVERFLOW).
\<close>

definition lseek_end :: "fd_state \<Rightarrow> int \<times> fd_state" where
  "lseek_end fd =
     (let fd' = fd\<lparr>calls := calls fd @ [SysLseekEnd]\<rparr> in
      if seekable fd \<and> length (contents fd) < 2 ^ 63
      then (int (length (contents fd)), fd'\<lparr>file_offset := length (contents fd)\<rparr>)
      else (- 1, fd'))"

text \<open>
  \<open>lseek(fd, off, SEEK_SET)\<close> with \<open>off\<close> already converted to \<open>off_t\<close>: a negative
  offset is refused (EINVAL); an offset past the end of the file is legal.
\<close>

definition lseek_set :: "fd_state \<Rightarrow> int \<Rightarrow> int \<times> fd_state" where
  "lseek_set fd off =
     (let fd' = fd\<lparr>calls := calls fd @ [SysLseekSet off]\<rparr> in
      if seekable fd \<and> 0 \<le> off
      then (off, fd'\<lparr>file_offset := nat off\<rparr>)
      else (- 1, fd'))"

text \<open>
  \<open>TEMP_FAILURE_RETRY(read(fd, buf, len))\<close>: \<open>None\<close> is a negative return value,
  \<open>Some bs\<close> the bytes delivered (\<open>rv = length bs\<close>). The bytes come from the file
  offset on; their number is bounded by \<open>len\<close>, by what is left of the file, and by
  what the kernel chooses to deliver in this call.
\<close>

definition sys_read :: "fd_state \<Rightarrow> nat \<Rightarrow> u8 list option \<times> fd_state" where
  "sys_read fd len =
     (let fd' = fd\<lparr>calls := calls fd @ [SysRead (file_offset fd) len],
                    upcoming := tl (upcoming fd)\<rparr> in
      (case upcoming fd of
        ReadFails # _ \<Rightarrow> (None, fd')
      | Deliver k # _ \<Rightarrow>
          (let bs = slice (contents fd) (file_offset fd) (min len k)
           in (Some bs, fd'\<lparr>file_offset := file_offset fd + length bs\<rparr>))
      | [] \<Rightarrow>
          (let bs = slice (contents fd) (file_offset fd) len
           in (Some bs, fd'\<lparr>file_offset := file_offset fd + length bs\<rparr>))))"

text \<open>
  Modelled from the spec: \<open>android::base::ReadFully\<close> (libbase, not among the sources),
  which the spec describes as looping until the requested length is filled or EOF is
  hit, EOF mid-read being an error. The bytes read so far are written into the
  destination also when it fails, so they are returned with the flag.
\<close>

function ReadFully :: "fd_state \<Rightarrow> nat \<Rightarrow> (bool \<times> u8 list) \<times> fd_state" where
  "ReadFully fd remaining =
     (if remaining = 0 then ((True, []), fd)
      else
       (case sys_read fd remaining of
          (None, fd') \<Rightarrow> ((False, []), fd')
        | (Some bs, fd') \<Rightarrow>
           (if bs = [] then ((False, []), fd')
            else
             (case ReadFully fd' (remaining - length bs) of
                ((ok, rest), fd'') \<Rightarrow> ((ok, bs @ rest), fd'')))))"
  by pat_completeness auto
termination
  by (relation "measure (\<lambda>(fd, remaining). remaining)") auto

declare ReadFully.simps [simp del]

section \<open>The COW container format\<close>

text \<open>
  Modelled from the spec: the declarations of \<open>cow_format.h\<close> (not among the sources).
  The header and operation records are packed little-endian structs with the fields
  and widths the spec lists; the magic number and the version pair are compiled-in
  constants whose values the reader only compares against, so they are parameters.
\<close>

record CowHeader =
  magic :: u32
  major_version :: u16
  minor_version :: u16
  header_size :: u32
  block_size :: u32
  ops_offset :: u64
  ops_size :: u64
  header_checksum :: "u8 list"
  ops_checksum :: "u8 list"

definition sizeof_CowHeader :: nat where
  "sizeof_CowHeader = 96"

definition decode_CowHeader :: "u8 list \<Rightarrow> CowHeader" where
  "decode_CowHeader bs =
     \<lparr> magic = of_nat (le_nat (slice bs 0 4)),
       major_version = of_nat (le_nat (slice bs 4 2)),
       minor_version = of_nat (le_nat (slice bs 6 2)),
       header_size = of_nat (le_nat (slice bs 8 4)),
       block_size = of_nat (le_nat (slice bs 12 4)),
       ops_offset = of_nat (le_nat (slice bs 16 8)),
       ops_size = of_nat (le_nat (slice bs 24 8)),
       header_checksum = slice bs 32 32,
       ops_checksum = slice bs 64 32 \<rparr>"

definition encode_CowHeader :: "CowHeader \<Rightarrow> u8 list" where
  "encode_CowHeader h =
     le_bytes 4 (unat (magic h)) @ le_bytes 2 (unat (major_version h)) @
     le_bytes 2 (unat (minor_version h)) @ le_bytes 4 (unat (header_size h)) @
     le_bytes 4 (unat (block_size h)) @ le_bytes 8 (unat (ops_offset h)) @
     le_bytes 8 (unat (ops_size h)) @
     take 32 (header_checksum h @ replicate 32 0) @
     take 32 (ops_checksum h @ replicate 32 0)"

record CowOperation =
  op_type :: u8
  compression :: u8
  data_length :: u64
  new_block :: u64
  source :: u64

definition sizeof_CowOperation :: nat where
  "sizeof_CowOperation = 28"

definition decode_CowOperation :: "u8 list \<Rightarrow> CowOperation" where
  "decode_CowOperation bs =
     \<lparr> op_type = of_nat (le_nat (slice bs 0 1)),
       compression = of_nat (le_nat (slice bs 1 1)),
       data_length = of_nat (le_nat (slice bs 4 8)),
       new_block = of_nat (le_nat (slice bs 12 8)),
       source = of_nat (le_nat (slice bs 20 8)) \<rparr>"

record cow_format =
  kCowMagicNumber :: u32
  kCowVersionMajor :: u16
  kCowVersionMinor :: u16

section \<open>The COW reader\<close>

text \<open>
  Every failing path of the reader returns \<open>false\<close> (or a null iterator) after a log
  line. The error value names the path taken:
  \<^item> \<open>IoError\<close>: "lseek end failed", "lseek header failed", "read header failed",
    "lseek ops failed", "read ops failed", "lseek to read raw bytes failed", "read failed";
  \<^item> \<open>RangeError\<close>: "ops offset ... larger than fd size", "ops size ... is too large",
    "invalid data offset";
  \<^item> \<open>BadMagic\<close>: "Header Magic corrupted";
  \<^item> \<open>HeaderSizeMismatch\<close>: "Header size unknown";
  \<^item> \<open>UnsupportedVersion\<close>: "Header version mismatch";
  \<^item> \<open>ChecksumMismatch\<close>: "header checksum is invalid", "ops checksum does not match".
\<close>

datatype cow_error =
  IoError | RangeError | BadMagic | HeaderSizeMismatch | UnsupportedVersion | ChecksumMismatch

text \<open>
  The fields \<open>header_\<close> and \<open>fd_size_\<close> of \<open>CowReader\<close> (a name cannot end in an
  underscore here). The descriptor \<open>fd_\<close> is borrowed: every operation takes its state
  and returns it.
\<close>

record CowReader =
  hdr :: CowHeader
  fd_size :: u64

text \<open>The constructor: a zeroed header and \<open>fd_size_ = 0\<close>.\<close>

definition CowReader_new :: CowReader where
  "CowReader_new =
     \<lparr> hdr = decode_CowHeader (replicate sizeof_CowHeader 0), fd_size = 0 \<rparr>"

text \<open>
  \<open>SHA256(data, length, out)\<close>: the body of the source's function is compiled out
  (\<open>#if 0\<close>), so the output buffer is left as the caller passed it.
\<close>

definition SHA256 :: "u8 list \<Rightarrow> nat \<Rightarrow> u8 list \<Rightarrow> u8 list" where
  "SHA256 data len out = out"

text \<open>
  \<open>CowReader::Parse(borrowed_fd)\<close>. The reader's fields are assigned as the code goes,
  so a failed parse leaves \<open>fd_size_\<close> and \<open>header_\<close> as far as they were written.
\<close>

definition Parse ::
  "cow_format \<Rightarrow> CowReader \<Rightarrow> fd_state \<Rightarrow> (cow_error + unit) \<times> CowReader \<times> fd_state" where
  "Parse fmt r fd =
     (case lseek_end fd of (pos, fd1) \<Rightarrow>
       (if pos < 0 then (Inl IoError, r, fd1)
        else
         (let r1 = r\<lparr>fd_size := of_int pos\<rparr> in
          (case lseek_set fd1 0 of (rv, fd2) \<Rightarrow>
            (if rv < 0 then (Inl IoError, r1, fd2)
             else
              (case ReadFully fd2 sizeof_CowHeader of ((ok, bs), fd3) \<Rightarrow>
                (let h = decode_CowHeader (bs @ drop (length bs) (encode_CowHeader (hdr r1)));
                     r2 = r1\<lparr>hdr := h\<rparr>
                 in
                  (if \<not> ok then (Inl IoError, r2, fd3)
                   else if ops_offset h \<ge> fd_size r2 then (Inl RangeError, r2, fd3)
                   else if fd_size r2 - ops_offset h < ops_size h then (Inl RangeError, r2, fd3)
                   else if magic h \<noteq> kCowMagicNumber fmt then (Inl BadMagic, r2, fd3)
                   else if header_size h \<noteq> of_nat sizeof_CowHeader
                        then (Inl HeaderSizeMismatch, r2, fd3)
                   else if major_version h \<noteq> kCowVersionMajor fmt \<or>
                           minor_version h \<noteq> kCowVersionMinor fmt
                        then (Inl UnsupportedVersion, r2, fd3)
                   else
                    (let tmp = h\<lparr>header_checksum := replicate 32 0\<rparr>;
                         header_csum =
                           SHA256 (encode_CowHeader tmp) sizeof_CowHeader (replicate 32 0)
                     in
                      (if memcmp header_csum (header_checksum h) 32 \<noteq> 0
                       then (Inl ChecksumMismatch, r2, fd3)
                       else (Inr (), r2, fd3)))))))))))"

text \<open>
  \<open>CowReader::GetRawBytes(offset, buffer, len, read)\<close>: the result is the bytes stored
  in the buffer, \<open>*read\<close> being their number. The sum \<open>offset + len\<close> is the wrapping
  64-bit one; \<open>lseek\<close> takes the offset as a signed \<open>off_t\<close>.
\<close>

definition GetRawBytes ::
  "CowReader \<Rightarrow> fd_state \<Rightarrow> u64 \<Rightarrow> u64 \<Rightarrow> (cow_error + u8 list) \<times> fd_state" where
  "GetRawBytes r fd offset len =
     (if offset < of_nat sizeof_CowHeader \<or> offset \<ge> ops_offset (hdr r) \<or>
         len \<ge> fd_size r \<or> offset + len > ops_offset (hdr r)
      then (Inl RangeError, fd)
      else
       (case lseek_set fd (sint offset) of (rv, fd1) \<Rightarrow>
         (if rv < 0 then (Inl IoError, fd1)
          else
           (case sys_read fd1 (unat len) of
              (None, fd2) \<Rightarrow> (Inl IoError, fd2)
            | (Some bs, fd2) \<Rightarrow> (Inr bs, fd2)))))"

subsection \<open>The operation iterator\<close>

text \<open>
  \<open>CowOpIter\<close> owns the buffer \<open>ops_\<close>; \<open>pos_\<close> and \<open>end_\<close> point into it and are kept
  as offsets from its start; \<open>done_\<close> is the flag. A failed \<open>CHECK\<close> aborts the process,
  and a record read through \<open>pos_\<close> that does not lie inside the buffer is an
  out-of-bounds read; both are results of their own.
\<close>

record CowOpIter =
  iter_ops :: "u8 list"
  iter_pos :: nat
  iter_end :: nat
  iter_done :: bool

datatype iter_error = CheckFailed | OutOfBounds

definition HasNext :: "CowOpIter \<Rightarrow> bool" where
  "HasNext it \<longleftrightarrow>
     iter_pos it < iter_end it \<and> iter_end it - iter_pos it \<ge> sizeof_CowOperation"

definition CowOpIter_new :: "u8 list \<Rightarrow> nat \<Rightarrow> CowOpIter" where
  "CowOpIter_new ops len =
     (let it = \<lparr> iter_ops = ops, iter_pos = 0, iter_end = 0 + len, iter_done = False \<rparr>
      in it\<lparr>iter_done := \<not> HasNext it\<rparr>)"

definition Done :: "CowOpIter \<Rightarrow> bool" where
  "Done it = iter_done it"

definition Next :: "CowOpIter \<Rightarrow> iter_error + CowOpIter" where
  "Next it =
     (if Done it then Inl CheckFailed
      else
       (let it1 = it\<lparr>iter_pos := iter_pos it + sizeof_CowOperation\<rparr>
        in Inr (if \<not> HasNext it1 then it1\<lparr>iter_done := True\<rparr> else it1)))"

definition Get :: "CowOpIter \<Rightarrow> iter_error + CowOperation" where
  "Get it =
     (if Done it then Inl CheckFailed
      else if \<not> HasNext it then Inl CheckFailed
      else if length (iter_ops it) < iter_pos it + sizeof_CowOperation then Inl OutOfBounds
      else Inr (decode_CowOperation (slice (iter_ops it) (iter_pos it) sizeof_CowOperation)))"

text \<open>
  The loop a caller runs over an iterator,
  \<open>while (!it->Done()) { ops.push_back(it->Get()); it->Next(); }\<close>,
  collecting the records it yields.
\<close>

function collect :: "CowOpIter \<Rightarrow> iter_error + CowOperation list" where
  "collect it =
     (if Done it then Inr []
      else
       (case Get it of
          Inl e \<Rightarrow> Inl e
        | Inr op \<Rightarrow>
           (case Next it of
              Inl e \<Rightarrow> Inl e
            | Inr it' \<Rightarrow>
               (case collect it' of
                  Inl e \<Rightarrow> Inl e
                | Inr ops \<Rightarrow> Inr (op # ops)))))"
  by pat_completeness auto
termination
proof (relation "measure (\<lambda>it. iter_end it - iter_pos it)")
  show "wf (measure (\<lambda>it. iter_end it - iter_pos it))"
    by simp
next
  fix it :: CowOpIter and op it'
  assume "\<not> Done it" and g: "Get it = Inr op" and n: "Next it = Inr it'"
  from g have "HasNext it"
    by (auto simp: Get_def split: if_splits)
  then have "iter_pos it < iter_end it"
    by (simp add: HasNext_def)
  moreover from n have "iter_pos it' = iter_pos it + sizeof_CowOperation"
    and "iter_end it' = iter_end it"
    by (auto simp: Next_def Let_def split: if_splits)
  ultimately show "(it', it) \<in> measure (\<lambda>it. iter_end it - iter_pos it)"
    by (simp add: sizeof_CowOperation_def)
qed

declare collect.simps [simp del]

text \<open>
  \<open>CowReader::GetOpIter()\<close>: a null iterator is the error of the path that returned it.
  The buffer handed to the iterator is the one \<open>ReadFully\<close> filled.
\<close>

definition GetOpIter :: "CowReader \<Rightarrow> fd_state \<Rightarrow> (cow_error + CowOpIter) \<times> fd_state" where
  "GetOpIter r fd =
     (case lseek_set fd (sint (ops_offset (hdr r))) of (rv, fd1) \<Rightarrow>
       (if rv < 0 then (Inl IoError, fd1)
        else
         (case ReadFully fd1 (unat (ops_size (hdr r))) of ((ok, ops_buffer), fd2) \<Rightarrow>
           (if \<not> ok then (Inl IoError, fd2)
            else
             (let csum = SHA256 ops_buffer (unat (ops_size (hdr r))) (replicate 32 0) in
               (if memcmp csum (ops_checksum (hdr r)) 32 \<noteq> 0
                then (Inl ChecksumMismatch, fd2)
                else (Inr (CowOpIter_new ops_buffer (unat (ops_size (hdr r)))), fd2)))))))"

section \<open>The daemon client\<close>

subsection \<open>Strings\<close>

text \<open>
  \<open>std::string::find(pat)\<close>: the position of the first occurrence of \<open>pat\<close>, or \<open>npos\<close>
  (\<open>None\<close>).
\<close>

fun starts_with :: "string \<Rightarrow> string \<Rightarrow> bool" where
  "starts_with s [] = True"
| "starts_with [] (p # ps) = False"
| "starts_with (c # cs) (p # ps) = (c = p \<and> starts_with cs ps)"

fun str_find :: "string \<Rightarrow> string \<Rightarrow> nat option" where
  "str_find [] pat = (if pat = [] then Some 0 else None)"
| "str_find (c # cs) pat =
     (if starts_with (c # cs) pat then Some 0 else map_option Suc (str_find cs pat))"

subsection \<open>The client and its environment\<close>

text \<open>
  The client object holds one field, the socket descriptor \<open>sockfd_\<close>. Everything else
  it does goes through the operating system: connecting a local socket, \<open>send\<close>,
  \<open>select\<close> and \<open>recv\<close>, \<open>close\<close>, \<open>fork\<close> and \<open>execv\<close>, \<open>sleep_for\<close>. The state
  carries, next to \<open>sockfd_\<close>, what the environment will answer to the calls still to
  come, one stream per kind of call, and the log of the calls made. The answers are
  arbitrary: nothing is assumed about the daemon at the other end.
  \<^item> \<open>connect_results\<close>: the value \<open>socket_local_client\<close> returns (negative: failure);
  \<^item> \<open>send_results\<close>: the value \<open>send\<close> returns, given the size asked for;
  \<^item> \<open>recv_results\<close>: what \<open>select\<close> and \<open>recv\<close> do: \<open>select\<close> fails or times out,
    \<open>recv\<close> fails, the peer has closed (\<open>recv\<close> returns 0), or a message arrived (the
    C string found in the buffer);
  \<^item> \<open>fork_results\<close>: \<open>fork\<close> returns in the parent (a pid, or \<open>-1\<close>), or in the child,
    where \<open>execv\<close> then fails or replaces the process image.
\<close>

datatype recv_outcome = SelectFails | SelectTimeout | RecvFails | PeerClosed | Received string

datatype fork_outcome = ForkParent | ForkChildExecFails | ForkChildExecs

datatype action =
  Connect string | Send string | Receive string | Close | Fork string | Sleep nat

record client_state =
  sockfd :: int
  connect_results :: "int stream"
  send_results :: "(nat \<Rightarrow> int) stream"
  recv_results :: "recv_outcome stream"
  fork_results :: "fork_outcome stream"
  trace :: "action list"

text \<open>
  The declarations of \<open>snapuserd_client.h\<close> are not among the sources: the two socket
  names and the retry budget are parameters.
\<close>

record client_config =
  GetSocketNameFirstStage :: string
  GetSocketNameSecondStage :: string
  MAX_CONNECT_RETRY_COUNT :: nat

text \<open>
  A call that does not return to its caller: a failed \<open>CHECK\<close> aborts the process, a
  successful \<open>execv\<close> replaces it, and indexing a vector out of range is undefined
  behaviour.
\<close>

datatype halt = Aborted | Replaced | VectorOutOfRange

definition socket_local_client :: "string \<Rightarrow> client_state \<Rightarrow> int \<times> client_state" where
  "socket_local_client name s =
     (shd (connect_results s),
      s\<lparr>connect_results := stl (connect_results s), trace := trace s @ [Connect name]\<rparr>)"

text \<open>\<open>close(sockfd_)\<close>.\<close>

definition close_sockfd :: "client_state \<Rightarrow> client_state" where
  "close_sockfd s = s\<lparr>trace := trace s @ [Close]\<rparr>"

text \<open>
  Modelled from the spec: \<open>DisconnectFromServer\<close> (declared in the header, not among
  the sources) closes the connection.
\<close>

definition DisconnectFromServer :: "client_state \<Rightarrow> client_state" where
  "DisconnectFromServer s = close_sockfd s"

definition sleep_for :: "nat \<Rightarrow> client_state \<Rightarrow> client_state" where
  "sleep_for ms s = s\<lparr>trace := trace s @ [Sleep ms]\<rparr>"

definition Sendmsg :: "string \<Rightarrow> client_state \<Rightarrow> int \<times> client_state" where
  "Sendmsg msg s =
     (let numBytesSent = shd (send_results s) (length msg);
          s' = s\<lparr>send_results := stl (send_results s), trace := trace s @ [Send msg]\<rparr>
      in if numBytesSent < 0 then (- 1, s')
         else if nat numBytesSent < length msg then (- 1, s')
         else (0, s'))"

text \<open>
  \<open>Receivemsg\<close>: the string starts as \<open>"fail"\<close> and is replaced only when \<open>recv\<close>
  returned data. The log keeps the string returned.
\<close>

definition Receivemsg :: "client_state \<Rightarrow> string \<times> client_state" where
  "Receivemsg s =
     (let msgStr = (case shd (recv_results s) of Received msg \<Rightarrow> msg | _ \<Rightarrow> ''fail'')
      in (msgStr,
          s\<lparr>recv_results := stl (recv_results s), trace := trace s @ [Receive msgStr]\<rparr>))"

definition ConnectToServerSocket ::
  "string \<Rightarrow> client_state \<Rightarrow> (halt + bool) \<times> client_state" where
  "ConnectToServerSocket socketname s =
     (case socket_local_client socketname (s\<lparr>sockfd := 0\<rparr>) of (fd, s1) \<Rightarrow>
       (let s2 = s1\<lparr>sockfd := fd\<rparr> in
        (if sockfd s2 < 0 then (Inr False, s2)
         else
          (case Sendmsg ''query'' s2 of (sendRet, s3) \<Rightarrow>
            (if sendRet < 0 then (Inr False, DisconnectFromServer s3)
             else
              (case Receivemsg s3 of (str, s4) \<Rightarrow>
                (if str_find str ''fail'' \<noteq> None then (Inr False, DisconnectFromServer s4)
                 else if str_find str ''passive'' \<noteq> None
                      then (Inr False, DisconnectFromServer s4)
                 else if \<not> (str_find str ''active'' \<noteq> None) then (Inl Aborted, s4)
                 else (Inr True, s4))))))))"

definition ConnectToServer :: "client_config \<Rightarrow> client_state \<Rightarrow> (halt + bool) \<times> client_state" where
  "ConnectToServer cfg s =
     (case ConnectToServerSocket (GetSocketNameFirstStage cfg) s of
        (Inl h, s1) \<Rightarrow> (Inl h, s1)
      | (Inr True, s1) \<Rightarrow> (Inr True, s1)
      | (Inr False, s1) \<Rightarrow>
         (case ConnectToServerSocket (GetSocketNameSecondStage cfg) s1 of
            (Inl h, s2) \<Rightarrow> (Inl h, s2)
          | (Inr True, s2) \<Rightarrow> (Inr True, s2)
          | (Inr False, s2) \<Rightarrow> (Inr False, s2)))"

text \<open>
  The polling loop of \<open>StartSnapuserdaemon\<close>, from the value of \<open>retry_count\<close> on.
\<close>

function connect_retry ::
  "client_config \<Rightarrow> nat \<Rightarrow> client_state \<Rightarrow> (halt + int) \<times> client_state" where
  "connect_retry cfg retry_count s =
     (if retry_count < MAX_CONNECT_RETRY_COUNT cfg then
        (case ConnectToServer cfg s of
           (Inl h, s1) \<Rightarrow> (Inl h, s1)
         | (Inr ok, s1) \<Rightarrow>
            (if \<not> ok then connect_retry cfg (retry_count + 1) (sleep_for 500 s1)
             else (Inr 0, close_sockfd s1)))
      else (Inr (- 1), s))"
  by pat_completeness auto
termination
  by (relation "measure (\<lambda>(cfg, retry_count, s). MAX_CONNECT_RETRY_COUNT cfg - retry_count)")
    auto

declare connect_retry.simps [simp del]

text \<open>
  \<open>StartSnapuserdaemon\<close>. In the child, a failed \<open>execv\<close> returns \<open>-1\<close> and a successful
  one never returns; the parent (also when \<open>fork\<close> failed) goes on to poll.
\<close>

definition StartSnapuserdaemon ::
  "client_config \<Rightarrow> string \<Rightarrow> client_state \<Rightarrow> (halt + int) \<times> client_state" where
  "StartSnapuserdaemon cfg socketname s =
     (let s' = s\<lparr>fork_results := stl (fork_results s), trace := trace s @ [Fork socketname]\<rparr>
      in (case shd (fork_results s) of
            ForkChildExecFails \<Rightarrow> (Inr (- 1), s')
          | ForkChildExecs \<Rightarrow> (Inl Replaced, s')
          | ForkParent \<Rightarrow> connect_retry cfg 0 s'))"

definition InitializeSnapuserd ::
  "client_config \<Rightarrow> string \<Rightarrow> string \<Rightarrow> string \<Rightarrow> client_state \<Rightarrow>
     (halt + int) \<times> client_state" where
  "InitializeSnapuserd cfg cow_device backing_device control_device s =
     (case ConnectToServer cfg s of
        (Inl h, s1) \<Rightarrow> (Inl h, s1)
      | (Inr ok, s1) \<Rightarrow>
         (if \<not> ok then (Inr (- 1), s1)
          else
           (let msg = ''start,'' @ cow_device @ '','' @ backing_device @ '','' @ control_device
            in (case Sendmsg msg s1 of (ret, s2) \<Rightarrow>
                 (if ret < 0 then (Inr (- 1), s2)
                  else
                   (case Receivemsg s2 of (str, s3) \<Rightarrow>
                     (if str_find str ''fail'' \<noteq> None then (Inr (- 1), s3)
                      else (Inr 0, DisconnectFromServer s3))))))))"

text \<open>
  \<open>vec[i][j]\<close>: \<open>std::vector::operator[]\<close> makes no range check.
\<close>

definition at_index :: "'a list \<Rightarrow> nat \<Rightarrow> 'a option" where
  "at_index xs i = (if i < length xs then Some (xs ! i) else None)"

text \<open>
  The loop of \<open>RestartSnapuserd\<close> over the device vectors. The value
  \<open>InitializeSnapuserd\<close> returns is dropped, as in the source.
\<close>

fun initialize_all ::
  "client_config \<Rightarrow> string list list \<Rightarrow> client_state \<Rightarrow> (halt + unit) \<times> client_state" where
  "initialize_all cfg [] s = (Inr (), s)"
| "initialize_all cfg (v # vs) s =
     (case at_index v 0 of
        None \<Rightarrow> (Inl VectorOutOfRange, s)
      | Some cow_device \<Rightarrow>
         (case at_index v 1 of
            None \<Rightarrow> (Inl VectorOutOfRange, s)
          | Some base_device \<Rightarrow>
             (case at_index v 2 of
                None \<Rightarrow> (Inl VectorOutOfRange, s)
              | Some control_device \<Rightarrow>
                 (case InitializeSnapuserd cfg cow_device base_device control_device s of
                    (Inl h, s1) \<Rightarrow> (Inl h, s1)
                  | (Inr ret, s1) \<Rightarrow> initialize_all cfg vs s1))))"

definition RestartSnapuserd ::
  "client_config \<Rightarrow> string list list \<Rightarrow> client_state \<Rightarrow> (halt + int) \<times> client_state" where
  "RestartSnapuserd cfg vec s =
     (case ConnectToServer cfg s of
        (Inl h, s1) \<Rightarrow> (Inl h, s1)
      | (Inr ok, s1) \<Rightarrow>
         (if \<not> ok then (Inr (- 1), s1)
          else
           (case Sendmsg ''terminate-request'' s1 of (sendRet, s2) \<Rightarrow>
             (if sendRet < 0 then (Inr (- 1), s2)
              else
               (case Receivemsg s2 of (str, s3) \<Rightarrow>
                 (if str_find str ''fail'' \<noteq> None then (Inr (- 1), s3)
                  else if \<not> (str_find str ''success'' \<noteq> None) then (Inl Aborted, s3)
                  else
                   (case StartSnapuserdaemon cfg (GetSocketNameSecondStage cfg)
                           (DisconnectFromServer s3) of
                      (Inl h, s4) \<Rightarrow> (Inl h, s4)
                    | (Inr ret, s4) \<Rightarrow>
                       (if ret < 0 then (Inr (- 1), s4)
                        else
                         (case initialize_all cfg vec s4 of
                            (Inl h, s5) \<Rightarrow> (Inl h, s5)
                          | (Inr u, s5) \<Rightarrow> (Inr 0, s5))))))))))"

section \<open>Predicates used in the statements\<close>

text \<open>
  Every call in a stretch of the log is a \<open>read\<close> of bytes between two file offsets.
\<close>

definition reads_within :: "nat \<Rightarrow> nat \<Rightarrow> syscall list \<Rightarrow> bool" where
  "reads_within lo hi cs \<longleftrightarrow>
     list_all (\<lambda>c. case c of SysRead off k \<Rightarrow> lo \<le> off \<and> off + k \<le> hi | _ \<Rightarrow> False) cs"

text \<open>
  The checks of \<open>Parse\<close> on a header that was read in full from a file of \<open>sz\<close> bytes,
  in the order the code makes them (the digest buffer stays zeroed, see \<open>SHA256\<close>).
\<close>

definition header_verdict :: "cow_format \<Rightarrow> nat \<Rightarrow> CowHeader \<Rightarrow> cow_error + unit" where
  "header_verdict fmt sz h =
     (if ops_offset h \<ge> of_nat sz then Inl RangeError
      else if of_nat sz - ops_offset h < ops_size h then Inl RangeError
      else if magic h \<noteq> kCowMagicNumber fmt then Inl BadMagic
      else if header_size h \<noteq> of_nat sizeof_CowHeader then Inl HeaderSizeMismatch
      else if major_version h \<noteq> kCowVersionMajor fmt \<or>
              minor_version h \<noteq> kCowVersionMinor fmt
           then Inl UnsupportedVersion
      else if header_checksum h \<noteq> replicate 32 0 then Inl ChecksumMismatch
      else Inr ())"

text \<open>
  What the kernel does to the next \<open>read\<close> on a descriptor: whether it fails, and
  otherwise how many bytes it is willing to deliver to a \<open>read\<close> of \<open>len\<close> bytes (the end
  of the file may cut the delivery further).
\<close>

definition next_read_fails :: "fd_state \<Rightarrow> bool" where
  "next_read_fails fd \<longleftrightarrow> (case upcoming fd of ReadFails # rest \<Rightarrow> True | _ \<Rightarrow> False)"

definition next_read_count :: "fd_state \<Rightarrow> nat \<Rightarrow> nat" where
  "next_read_count fd len = (case upcoming fd of Deliver k # rest \<Rightarrow> min len k | _ \<Rightarrow> len)"

text \<open>
  What the environment does to the next attempt of the client: whether the connect
  succeeds, whether the five bytes of \<open>"query"\<close> are sent in full, and the reply as
  \<open>Receivemsg\<close> reports it (\<open>"fail"\<close> when \<open>select\<close> or \<open>recv\<close> fails, times out or
  finds the peer gone).
\<close>

definition connect_ok :: "client_state \<Rightarrow> bool" where
  "connect_ok s \<longleftrightarrow> 0 \<le> shd (connect_results s)"

definition query_ok :: "client_state \<Rightarrow> bool" where
  "query_ok s \<longleftrightarrow> int (length ''query'') \<le> shd (send_results s) (length ''query'')"

definition next_reply :: "client_state \<Rightarrow> string" where
  "next_reply s = (case shd (recv_results s) of Received msg \<Rightarrow> msg | _ \<Rightarrow> ''fail'')"

text \<open>
  What one call of \<open>ConnectToServerSocket\<close> on a socket leaves in the log when it
  returns \<open>false\<close>: the connect failed (there is no connection to close); or the query
  could not be sent and the connection was closed; or the reply carried \<open>fail\<close> or
  \<open>passive\<close> and the connection was closed.
\<close>

fun failed_attempt :: "string \<Rightarrow> action list \<Rightarrow> bool" where
  "failed_attempt name [Connect n] \<longleftrightarrow> n = name"
| "failed_attempt name [Connect n, Send m, Close] \<longleftrightarrow> n = name \<and> m = ''query''"
| "failed_attempt name [Connect n, Send m, Receive str, Close] \<longleftrightarrow>
     n = name \<and> m = ''query'' \<and>
     (str_find str ''fail'' \<noteq> None \<or> str_find str ''passive'' \<noteq> None)"
| "failed_attempt name t \<longleftrightarrow> False"

text \<open>
  What it leaves when it returns \<open>true\<close>: the reply carried \<open>active\<close> and neither
  \<open>fail\<close> nor \<open>passive\<close>, and the connection stays open.
\<close>

fun active_attempt :: "string \<Rightarrow> action list \<Rightarrow> bool" where
  "active_attempt name [Connect n, Send m, Receive str] \<longleftrightarrow>
     n = name \<and> m = ''query'' \<and> str_find str ''fail'' = None \<and>
     str_find str ''passive'' = None \<and> str_find str ''active'' \<noteq> None"
| "active_attempt name t \<longleftrightarrow> False"

text \<open>
  An environment in which every connect and send succeeds, every reply is
  \<open>"active success"\<close> and \<open>fork\<close> returns in the parent.
\<close>

definition cooperative :: "client_state \<Rightarrow> bool" where
  "cooperative s \<longleftrightarrow>
     connect_results s = sconst 3 \<and> send_results s = sconst int \<and>
     recv_results s = sconst (Received ''active success'') \<and>
     fork_results s = sconst ForkParent"

section \<open>Example inputs\<close>

text \<open>Concrete containers and descriptors on which the theorems below are exercised.\<close>

definition example_format :: cow_format where
  "example_format =
     \<lparr> kCowMagicNumber = 0x55667788, kCowVersionMajor = 1, kCowVersionMinor = 0 \<rparr>"

definition example_header :: "u64 \<Rightarrow> u64 \<Rightarrow> CowHeader" where
  "example_header off sz =
     \<lparr> magic = 0x55667788, major_version = 1, minor_version = 0, header_size = 96,
       block_size = 4096, ops_offset = off, ops_size = sz,
       header_checksum = replicate 32 0, ops_checksum = replicate 32 0 \<rparr>"

definition open_file :: "u8 list \<Rightarrow> fd_state" where
  "open_file bs =
     \<lparr> contents = bs, seekable = True, file_offset = 0, upcoming = [], calls = [] \<rparr>"

text \<open>A header, four payload bytes and one operation record: 128 bytes.\<close>

definition example_file :: "u8 list" where
  "example_file = encode_CowHeader (example_header 100 28) @ replicate 4 0xAB @ replicate 28 0"

text \<open>Two operation records, told apart by their type byte, right after the header.\<close>

definition op_record :: "u8 \<Rightarrow> u8 list" where
  "op_record t = t # replicate 27 0"

definition two_op_file :: "u8 list" where
  "two_op_file = encode_CowHeader (example_header 96 56) @ op_record 1 @ op_record 2"

definition two_op_reader :: CowReader where
  "two_op_reader = \<lparr> hdr = example_header 96 56, fd_size = 152 \<rparr>"

text \<open>The descriptor of the example file when the kernel delivers two bytes to the next read.\<close>

definition short_read_fd :: fd_state where
  "short_read_fd = (open_file example_file)\<lparr>upcoming := [Deliver 2]\<rparr>"

text \<open>The same descriptor when the next read fails, and when it cannot seek.\<close>

definition failing_read_fd :: fd_state where
  "failing_read_fd = (open_file example_file)\<lparr>upcoming := [ReadFails]\<rparr>"

definition unseekable_fd :: fd_state where
  "unseekable_fd = (open_file example_file)\<lparr>seekable := False\<rparr>"

definition example_reader :: CowReader where
  "example_reader = \<lparr> hdr = example_header 100 28, fd_size = 128 \<rparr>"

text \<open>
  The SHA-256 digest (FIPS 180-4) of \<open>encode_CowHeader (example_header 100 28)\<close>, the
  header of the example file with its checksum field zeroed, as a reference
  implementation computes it: 26e36375 53af9281 aee9705a 1e27a229 1f6c8a34 83072530
  bc70ea4d 6e82b016.
\<close>

definition example_header_digest :: "u8 list" where
  "example_header_digest =
     [0x26, 0xE3, 0x63, 0x75, 0x53, 0xAF, 0x92, 0x81, 0xAE, 0xE9, 0x70, 0x5A, 0x1E, 0x27, 0xA2, 0x29,
      0x1F, 0x6C, 0x8A, 0x34, 0x83, 0x07, 0x25, 0x30, 0xBC, 0x70, 0xEA, 0x4D, 0x6E, 0x82, 0xB0, 0x16]"

definition payload_and_op :: "u8 list" where
  "payload_and_op = replicate 4 0xAB @ replicate 28 0"

text \<open>The two-record file with one bit of its first record flipped.\<close>

definition mutated_two_op_file :: "u8 list" where
  "mutated_two_op_file = encode_CowHeader (example_header 96 56) @ op_record 3 @ op_record 2"

definition header_only_file :: "u8 list" where
  "header_only_file = encode_CowHeader (example_header 0 1)"

definition truncated_file :: "u8 list" where
  "truncated_file = encode_CowHeader (example_header 100 28) @ replicate 4 0xAB @ replicate 27 0"

text \<open>
  A configuration, and an environment in which every connect and send succeeds and the
  daemons' replies are the given strings, in order (then silence).
\<close>

definition example_config :: client_config where
  "example_config =
     \<lparr> GetSocketNameFirstStage = ''snapuserd_first_stage'',
       GetSocketNameSecondStage = ''snapuserd'', MAX_CONNECT_RETRY_COUNT = 10 \<rparr>"

definition environment :: "string list \<Rightarrow> client_state" where
  "environment replies =
     \<lparr> sockfd = - 1, connect_results = sconst 3, send_results = sconst int,
       recv_results = map Received replies @- sconst SelectTimeout,
       fork_results = sconst ForkParent, trace = [] \<rparr>"

text \<open>
  Environments whose daemon answers \<open>"active"\<close>, but in which the first connect is
  refused, or the first query cannot be sent.
\<close>

definition refused_environment :: client_state where
  "refused_environment = (environment [''active''])\<lparr>connect_results := [- 1] @- sconst 3\<rparr>"

definition unsent_environment :: client_state where
  "unsent_environment = (environment [''active''])\<lparr>send_results := [\<lambda>n. - 1] @- sconst int\<rparr>"

definition cooperative_environment :: client_state where
  "cooperative_environment =
     \<lparr> sockfd = - 1, connect_results = sconst 3, send_results = sconst int,
       recv_results = sconst (Received ''active success''),
       fork_results = sconst ForkParent, trace = [] \<rparr>"

text \<open>A device triple, and the replies of a daemon handoff up to the binding of devices.\<close>

definition example_triple :: "string list" where
  "example_triple = [''system_cow'', ''system_a'', ''system_ctrl'']"

definition handoff_replies :: "string list" where
  "handoff_replies =
     [''active'', ''success'', ''passive'', ''active'', ''passive'', ''active'']"

text \<open>A reply that carries \<open>success\<close>, \<open>active\<close> and \<open>fail\<close>.\<close>

definition mixed_reply :: string where
  "mixed_reply = ''success: daemon active, 0 requests fail''"

section \<open>Byte strings and the byte source\<close>

lemma length_le_bytes [simp]: "length (le_bytes n v) = n"
  by (induction n arbitrary: v) simp_all

lemma le_nat_le_bytes: "le_nat (le_bytes n v) = v mod 256 ^ n"
proof (induction n arbitrary: v)
  case 0
  show ?case by simp
next
  case (Suc n)
  have "unat (of_nat (v mod 256) :: u8) = v mod 256"
    by (simp add: unat_of_nat)
  then show ?case
    using Suc [of "v div 256"] by (simp add: mod_mult2_eq)
qed

lemma le_roundtrip_u16: "of_nat (le_nat (le_bytes 2 (unat w))) = (w :: u16)"
  using unsigned_less [of w, where 'a = nat] by (simp add: le_nat_le_bytes)

lemma le_roundtrip_u32: "of_nat (le_nat (le_bytes 4 (unat w))) = (w :: u32)"
  using unsigned_less [of w, where 'a = nat] by (simp add: le_nat_le_bytes)

lemma le_roundtrip_u64: "of_nat (le_nat (le_bytes 8 (unat w))) = (w :: u64)"
  using unsigned_less [of w, where 'a = nat] by (simp add: le_nat_le_bytes)

lemma length_encode_CowHeader [simp]: "length (encode_CowHeader h) = sizeof_CowHeader"
  by (simp add: encode_CowHeader_def sizeof_CowHeader_def)

text \<open>Writing a header and reading it again gives the same header.\<close>

lemma decode_encode_CowHeader:
  assumes "length (header_checksum h) = 32" and "length (ops_checksum h) = 32"
  shows "decode_CowHeader (encode_CowHeader h @ rest) = h"
  using assms
  by (simp add: decode_CowHeader_def encode_CowHeader_def slice_def
      le_roundtrip_u16 le_roundtrip_u32 le_roundtrip_u64)

lemma memcmp_eq_0_iff:
  "n \<le> length a \<Longrightarrow> n \<le> length b \<Longrightarrow> memcmp a b n = 0 \<longleftrightarrow> take n a = take n b"
proof (induction a b n rule: memcmp.induct)
  case (1 a as b bs n)
  then show ?case by simp
qed simp_all

lemma ReadFully_0 [simp]: "ReadFully fd 0 = ((True, []), fd)"
  by (simp add: ReadFully.simps)

text \<open>On a descriptor whose reads are not cut short, one \<open>read\<close> fills the request.\<close>

lemma ReadFully_plain:
  assumes "upcoming fd = []" and "file_offset fd + n \<le> length (contents fd)" and "0 < n"
  shows "ReadFully fd n =
           ((True, slice (contents fd) (file_offset fd) n),
            fd\<lparr>calls := calls fd @ [SysRead (file_offset fd) n],
               file_offset := file_offset fd + n\<rparr>)"
proof -
  have len: "length (slice (contents fd) (file_offset fd) n) = n"
    using assms by (simp add: slice_def)
  then have ne: "slice (contents fd) (file_offset fd) n \<noteq> []"
    using assms(3) by auto
  show ?thesis
    using assms len ne
    by (subst ReadFully.simps) (simp add: sys_read_def Let_def)
qed

lemma length_slice_le: "length (slice xs off (min a b)) \<le> a" "length (slice xs off a) \<le> a"
  by (simp_all add: slice_def)

lemma slice_length_slice: "slice xs off (length (slice xs off n)) = slice xs off n"
  by (simp add: slice_def min_def)

lemma sys_read_effect:
  assumes "sys_read fd len = (res, fd')"
  shows "contents fd' = contents fd \<and> seekable fd' = seekable fd \<and>
         calls fd' = calls fd @ [SysRead (file_offset fd) len] \<and>
         (\<forall>bs. res = Some bs \<longrightarrow>
            bs = slice (contents fd) (file_offset fd) (length bs) \<and> length bs \<le> len \<and>
            file_offset fd' = file_offset fd + length bs)"
  using assms
  by (auto simp: sys_read_def Let_def slice_length_slice length_slice_le
      split: list.splits read_behaviour.splits)

text \<open>
  Whatever the kernel delivers per call, \<open>ReadFully\<close> leaves the file alone, issues only
  reads inside the requested range and, when it succeeds, returns exactly that range.
\<close>

lemma ReadFully_effect:
  "ReadFully fd n = ((ok, bs), fd') \<Longrightarrow>
     contents fd' = contents fd \<and> seekable fd' = seekable fd \<and>
     (ok \<longrightarrow> bs = slice (contents fd) (file_offset fd) n \<and> length bs = n \<and>
            file_offset fd' = file_offset fd + n) \<and>
     (\<exists>new. calls fd' = calls fd @ new \<and>
            reads_within (file_offset fd) (file_offset fd + n) new)"
proof (induction fd n arbitrary: ok bs fd' rule: ReadFully.induct)
  case (1 fd remaining)
  show ?case
  proof (cases "remaining = 0")
    case True
    with "1.prems" show ?thesis
      by (simp add: slice_def reads_within_def)
  next
    case False
    obtain res fd1 where sr: "sys_read fd remaining = (res, fd1)"
      by (cases "sys_read fd remaining")
    note eff = sys_read_effect [OF sr]
    have here: "reads_within (file_offset fd) (file_offset fd + remaining)
        [SysRead (file_offset fd) remaining]"
      by (simp add: reads_within_def)
    show ?thesis
    proof (cases res)
      case None
      with "1.prems" False sr eff here show ?thesis
        by (subst (asm) ReadFully.simps) auto
    next
      case (Some chunk)
      show ?thesis
      proof (cases "chunk = []")
        case True
        with "1.prems" False sr eff here Some show ?thesis
          by (subst (asm) ReadFully.simps) auto
      next
        case ne: False
        obtain ok2 rest fd2 where rec: "ReadFully fd1 (remaining - length chunk) = ((ok2, rest), fd2)"
          by (metis prod.exhaust)
        from "1.prems" False sr Some ne rec
        have res: "ok = ok2" "bs = chunk @ rest" "fd' = fd2"
          by (subst (asm) ReadFully.simps, simp)+
        note ih = "1.IH" [OF False sr [symmetric] Some ne rec]
        from eff Some have ch: "chunk = slice (contents fd) (file_offset fd) (length chunk)"
          and chl: "length chunk \<le> remaining"
          and off1: "file_offset fd1 = file_offset fd + length chunk"
          by simp_all
        from ih obtain new where new: "calls fd2 = calls fd1 @ new"
          and rw: "reads_within (file_offset fd1) (file_offset fd1 + (remaining - length chunk)) new"
          by blast
        have rw': "reads_within (file_offset fd) (file_offset fd + remaining) new"
          using rw off1 chl by (auto simp: reads_within_def list_all_iff split: syscall.splits)
        have calls: "\<exists>new. calls fd' = calls fd @ new \<and>
            reads_within (file_offset fd) (file_offset fd + remaining) new"
          using new eff rw' here res
          by (intro exI [of _ "SysRead (file_offset fd) remaining # new"])
             (simp add: reads_within_def)
        have data: "ok \<longrightarrow> bs = slice (contents fd) (file_offset fd) remaining \<and>
            length bs = remaining \<and> file_offset fd' = file_offset fd + remaining"
        proof
          assume ok
          with ih res have "rest = slice (contents fd1) (file_offset fd1) (remaining - length chunk) \<and>
              length rest = remaining - length chunk \<and>
              file_offset fd2 = file_offset fd1 + (remaining - length chunk)"
            by blast
          with eff have r: "rest = slice (contents fd) (file_offset fd1) (remaining - length chunk)"
            and rl: "length rest = remaining - length chunk"
            and o2: "file_offset fd2 = file_offset fd1 + (remaining - length chunk)"
            by auto
          have "take (length chunk) (drop (file_offset fd) (contents fd)) @
                take (remaining - length chunk) (drop (length chunk) (drop (file_offset fd) (contents fd)))
                = take (length chunk + (remaining - length chunk)) (drop (file_offset fd) (contents fd))"
            by (simp only: take_add)
          then have cat: "chunk @ rest = slice (contents fd) (file_offset fd) remaining"
            using ch r off1 chl by (simp add: slice_def add.commute)
          have "length (chunk @ rest) = remaining"
            using rl chl by simp
          with cat show "bs = slice (contents fd) (file_offset fd) remaining \<and>
            length bs = remaining \<and> file_offset fd' = file_offset fd + remaining"
            using res rl chl o2 off1 by simp
        qed
        have same: "contents fd' = contents fd \<and> seekable fd' = seekable fd"
          using ih eff res by simp
        from same calls data show ?thesis by blast
      qed
    qed
  qed
qed

section \<open>Parsing the header\<close>

lemma lseek_end_ok:
  "lseek_end fd = (pos, fd1) \<Longrightarrow> \<not> pos < 0 \<Longrightarrow>
     pos = int (length (contents fd)) \<and> length (contents fd) < 2 ^ 63"
  by (auto simp: lseek_end_def Let_def split: if_splits)

text \<open>What a successful \<open>Parse\<close> has established about the reader's fields.\<close>

lemma Parse_ok_fields:
  assumes "Parse fmt r0 fd0 = (Inr (), r, fd1)"
  shows "unat (fd_size r) = length (contents fd0) \<and> length (contents fd0) < 2 ^ 63 \<and>
         ops_offset (hdr r) < fd_size r \<and>
         ops_size (hdr r) \<le> fd_size r - ops_offset (hdr r)"
proof -
  obtain pos fda where le: "lseek_end fd0 = (pos, fda)"
    by (cases "lseek_end fd0")
  have pos: "\<not> pos < 0"
    using assms le by (auto simp: Parse_def)
  from lseek_end_ok [OF le pos] have p: "pos = int (length (contents fd0))"
    and small: "length (contents fd0) < 2 ^ 63" by simp_all
  have sz: "fd_size r = of_nat (length (contents fd0))"
    using assms le pos p
    by (simp add: Parse_def Let_def split: prod.splits if_splits) auto
  have "unat (fd_size r) = length (contents fd0)"
    unfolding sz using small by (simp add: unat_of_nat)
  moreover have "ops_offset (hdr r) < fd_size r \<and>
      ops_size (hdr r) \<le> fd_size r - ops_offset (hdr r)"
    using assms le pos p
    by (simp add: Parse_def Let_def split: prod.splits if_splits) auto
  ultimately show ?thesis using small by simp
qed

lemma Parse_plain:
  assumes "seekable fd" and "upcoming fd = []"
    and "contents fd = encode_CowHeader h @ rest"
    and "length (header_checksum h) = 32" and "length (ops_checksum h) = 32"
    and "length (contents fd) < 2 ^ 63"
  shows "Parse fmt r fd =
           (header_verdict fmt (length (contents fd)) h,
            \<lparr> hdr = h, fd_size = of_nat (length (contents fd)) \<rparr>,
            fd\<lparr>calls := calls fd @ [SysLseekEnd, SysLseekSet 0, SysRead 0 sizeof_CowHeader],
               file_offset := sizeof_CowHeader\<rparr>)"
proof -
  let ?fd2 = "fd\<lparr>calls := calls fd @ [SysLseekEnd, SysLseekSet 0], file_offset := 0\<rparr>"
  have seek: "lseek_end fd = (int (length (contents fd)),
        fd\<lparr>calls := calls fd @ [SysLseekEnd], file_offset := length (contents fd)\<rparr>)"
    using assms by (simp add: lseek_end_def Let_def)
  have rewind: "lseek_set
        (fd\<lparr>calls := calls fd @ [SysLseekEnd], file_offset := length (contents fd)\<rparr>) 0
       = (0, ?fd2)"
    using assms by (simp add: lseek_set_def Let_def)
  have rd: "ReadFully ?fd2 sizeof_CowHeader =
      ((True, encode_CowHeader h),
       ?fd2\<lparr>calls := calls ?fd2 @ [SysRead 0 sizeof_CowHeader],
            file_offset := sizeof_CowHeader\<rparr>)"
    using assms ReadFully_plain [of ?fd2 sizeof_CowHeader]
    by (simp add: slice_def) (simp add: sizeof_CowHeader_def)
  have cs: "memcmp (replicate 32 0) (header_checksum h) 32 \<noteq> 0 \<longleftrightarrow>
      header_checksum h \<noteq> replicate 32 0"
    using assms(4) memcmp_eq_0_iff [of 32 "replicate 32 0" "header_checksum h"] by auto
  have dec: "decode_CowHeader (encode_CowHeader h) = h"
    using decode_encode_CowHeader [of h "[]"] assms by simp
  show ?thesis
    unfolding Parse_def seek
    by (simp add: rewind rd Let_def dec SHA256_def cs header_verdict_def)
qed

lemma length_example_file: "length example_file = 128"
  by (simp add: example_file_def sizeof_CowHeader_def)

lemma Parse_example_file:
  "Parse example_format CowReader_new (open_file example_file) =
     (Inr (), \<lparr> hdr = example_header 100 28, fd_size = 128 \<rparr>,
      \<lparr> contents = example_file, seekable = True, file_offset = 96, upcoming = [],
        calls = [SysLseekEnd, SysLseekSet 0, SysRead 0 96] \<rparr>)"
proof -
  have "Parse example_format CowReader_new (open_file example_file) =
      (header_verdict example_format (length (contents (open_file example_file)))
         (example_header 100 28),
       \<lparr> hdr = example_header 100 28,
         fd_size = of_nat (length (contents (open_file example_file))) \<rparr>,
       (open_file example_file)
         \<lparr>calls := calls (open_file example_file) @
            [SysLseekEnd, SysLseekSet 0, SysRead 0 sizeof_CowHeader],
          file_offset := sizeof_CowHeader\<rparr>)"
    by (rule Parse_plain [where rest = "replicate 4 0xAB @ replicate 28 0"])
      (simp_all add: open_file_def length_example_file, simp_all add: example_file_def example_header_def)
  then show ?thesis
    by (simp add: open_file_def length_example_file header_verdict_def example_header_def
        example_format_def sizeof_CowHeader_def)
qed

text \<open>
  The result of \<open>Parse\<close> whenever it is not an I/O failure, for any behaviour of the
  descriptor: the header is the first \<open>sizeof(CowHeader)\<close> bytes of the file, and the
  result is the verdict of the checks on it.
\<close>

lemma length_decoded_checksum:
  "sizeof_CowHeader \<le> length bs \<Longrightarrow> length (header_checksum (decode_CowHeader bs)) = 32"
  by (simp add: decode_CowHeader_def slice_def sizeof_CowHeader_def)

lemma Parse_verdict:
  assumes "fst (Parse fmt r0 fd) \<noteq> Inl IoError"
  shows "Parse fmt r0 fd =
           (header_verdict fmt (length (contents fd))
              (decode_CowHeader (slice (contents fd) 0 sizeof_CowHeader)),
            \<lparr> hdr = decode_CowHeader (slice (contents fd) 0 sizeof_CowHeader),
              fd_size = of_nat (length (contents fd)) \<rparr>,
            snd (snd (Parse fmt r0 fd))) \<and>
         sizeof_CowHeader \<le> length (contents fd) \<and> length (contents fd) < 2 ^ 63"
proof -
  obtain pos fd1 where le: "lseek_end fd = (pos, fd1)"
    by (cases "lseek_end fd")
  have pos: "\<not> pos < 0"
    using assms le by (auto simp: Parse_def)
  from lseek_end_ok [OF le pos] have p: "pos = int (length (contents fd))"
    and small: "length (contents fd) < 2 ^ 63" by simp_all
  have fd1: "contents fd1 = contents fd"
    using le by (auto simp: lseek_end_def Let_def split: if_splits)
  obtain rv fd2 where ls: "lseek_set fd1 0 = (rv, fd2)"
    by (cases "lseek_set fd1 0")
  have rv: "\<not> rv < 0"
    using assms le pos ls by (auto simp: Parse_def Let_def)
  have fd2: "contents fd2 = contents fd" "file_offset fd2 = 0"
    using ls rv fd1 by (auto simp: lseek_set_def Let_def split: if_splits)
  obtain ok bs fd3 where rf: "ReadFully fd2 sizeof_CowHeader = ((ok, bs), fd3)"
    by (metis prod.exhaust)
  have ok: ok
    using assms le pos ls rv rf by (auto simp: Parse_def Let_def split: if_splits)
  from ReadFully_effect [OF rf] ok fd2
  have bs: "bs = slice (contents fd) 0 sizeof_CowHeader" and len: "length bs = sizeof_CowHeader"
    by auto
  from len bs have big: "sizeof_CowHeader \<le> length (contents fd)"
    by (simp add: slice_def)
  have l32: "length (header_checksum (decode_CowHeader bs)) = 32"
    using len by (simp add: length_decoded_checksum)
  have cs: "memcmp (replicate 32 0) (header_checksum (decode_CowHeader bs)) 32 \<noteq> 0 \<longleftrightarrow>
      header_checksum (decode_CowHeader bs) \<noteq> replicate 32 0"
    using l32 memcmp_eq_0_iff [of 32 "replicate 32 0" "header_checksum (decode_CowHeader bs)"]
    by auto
  have "Parse fmt r0 fd =
          (header_verdict fmt (length (contents fd)) (decode_CowHeader bs),
           \<lparr> hdr = decode_CowHeader bs, fd_size = of_nat (length (contents fd)) \<rparr>, fd3)"
    unfolding Parse_def le
    using pos p ls rv rf ok len
    by (simp add: Let_def SHA256_def cs header_verdict_def)
  with big small bs show ?thesis by simp
qed

text \<open>
  C2 (as amended). When reading the header did not fail, \<open>Parse\<close> fails with
  \<open>RangeError\<close> exactly when \<open>ops_offset\<close> is not below the file size or
  \<open>ops_offset + ops_size\<close> (the unbounded sum) exceeds it, whatever the rest of the
  header holds; so a successful parse has established both bounds. Neither
  \<open>ops_offset \<ge> sizeof(CowHeader)\<close> nor the divisibility of \<open>ops_size\<close> by
  \<open>sizeof(CowOperation)\<close> is among the checks. A file exactly as long as the header
  fails with \<open>RangeError\<close> whenever its \<open>ops_offset\<close> is at least the header size.
\<close>

theorem Parse_range_checks:
  assumes "fst (Parse fmt r0 fd) \<noteq> Inl IoError"
  shows "(fst (Parse fmt r0 fd) = Inl RangeError \<longleftrightarrow>
            length (contents fd) \<le>
              unat (ops_offset (decode_CowHeader (slice (contents fd) 0 sizeof_CowHeader))) \<or>
            length (contents fd) <
              unat (ops_offset (decode_CowHeader (slice (contents fd) 0 sizeof_CowHeader))) +
              unat (ops_size (decode_CowHeader (slice (contents fd) 0 sizeof_CowHeader)))) \<and>
         (fst (Parse fmt r0 fd) = Inr () \<longrightarrow>
            unat (ops_offset (decode_CowHeader (slice (contents fd) 0 sizeof_CowHeader))) <
              length (contents fd) \<and>
            unat (ops_offset (decode_CowHeader (slice (contents fd) 0 sizeof_CowHeader))) +
            unat (ops_size (decode_CowHeader (slice (contents fd) 0 sizeof_CowHeader))) \<le>
              length (contents fd)) \<and>
         (length (contents fd) = sizeof_CowHeader \<and>
          sizeof_CowHeader \<le>
            unat (ops_offset (decode_CowHeader (slice (contents fd) 0 sizeof_CowHeader))) \<longrightarrow>
            fst (Parse fmt r0 fd) = Inl RangeError)"
proof -
  let ?h = "decode_CowHeader (slice (contents fd) 0 sizeof_CowHeader)"
  let ?n = "length (contents fd)"
  from Parse_verdict [OF assms]
  have v: "fst (Parse fmt r0 fd) = header_verdict fmt ?n ?h" and small: "?n < 2 ^ 63"
    by (metis fst_conv, simp)
  have n: "unat (of_nat ?n :: u64) = ?n"
    using small by (simp add: unat_of_nat)
  have a: "of_nat ?n \<le> ops_offset ?h \<longleftrightarrow> ?n \<le> unat (ops_offset ?h)"
    by (simp add: word_le_nat_alt n)
  have b: "of_nat ?n - ops_offset ?h < ops_size ?h \<longleftrightarrow>
      ?n < unat (ops_offset ?h) + unat (ops_size ?h)"
    if "\<not> of_nat ?n \<le> ops_offset ?h"
  proof -
    from that have "ops_offset ?h \<le> of_nat ?n" by simp
    then have "unat (of_nat ?n - ops_offset ?h) = ?n - unat (ops_offset ?h)"
      by (simp add: unat_sub n)
    moreover from that have "unat (ops_offset ?h) < ?n"
      by (simp add: a)
    ultimately show ?thesis
      by (auto simp: word_less_nat_alt)
  qed
  have range: "fst (Parse fmt r0 fd) = Inl RangeError \<longleftrightarrow>
      ?n \<le> unat (ops_offset ?h) \<or> ?n < unat (ops_offset ?h) + unat (ops_size ?h)"
    unfolding v header_verdict_def using a b by auto
  then show ?thesis
    by auto
qed

lemma Parse_truncated_file:
  "fst (Parse example_format CowReader_new (open_file truncated_file)) = Inl RangeError"
proof -
  have "Parse example_format CowReader_new (open_file truncated_file) =
      (header_verdict example_format (length (contents (open_file truncated_file)))
         (example_header 100 28),
       \<lparr> hdr = example_header 100 28,
         fd_size = of_nat (length (contents (open_file truncated_file))) \<rparr>,
       (open_file truncated_file)
         \<lparr>calls := calls (open_file truncated_file) @
            [SysLseekEnd, SysLseekSet 0, SysRead 0 sizeof_CowHeader],
          file_offset := sizeof_CowHeader\<rparr>)"
    by (rule Parse_plain [where rest = "replicate 4 0xAB @ replicate 27 0"])
      (simp_all add: open_file_def truncated_file_def example_header_def sizeof_CowHeader_def)
  then show ?thesis
    by (simp add: open_file_def truncated_file_def header_verdict_def example_header_def
        example_format_def sizeof_CowHeader_def)
qed

theorem Parse_range_checks_witness:
  "fst (Parse example_format CowReader_new (open_file truncated_file)) \<noteq> Inl IoError \<and>
   fst (Parse example_format CowReader_new (open_file truncated_file)) = Inl RangeError \<and>
   length (contents (open_file truncated_file)) = 127 \<and>
   (length (contents (open_file truncated_file)) \<le>
      unat (ops_offset (decode_CowHeader
        (slice (contents (open_file truncated_file)) 0 sizeof_CowHeader))) \<or>
    length (contents (open_file truncated_file)) <
      unat (ops_offset (decode_CowHeader
        (slice (contents (open_file truncated_file)) 0 sizeof_CowHeader))) +
      unat (ops_size (decode_CowHeader
        (slice (contents (open_file truncated_file)) 0 sizeof_CowHeader))))"
proof -
  have ok: "fst (Parse example_format CowReader_new (open_file truncated_file)) \<noteq> Inl IoError"
    by (simp add: Parse_truncated_file)
  have len: "length (contents (open_file truncated_file)) = 127"
    by (simp add: open_file_def truncated_file_def sizeof_CowHeader_def)
  from Parse_range_checks [OF ok] ok len show ?thesis
    by (simp add: Parse_truncated_file)
qed

text \<open>
  A file exactly as long as the header, with \<open>ops_offset = 0\<close> (inside the header) and
  \<open>ops_size = 1\<close> (not a multiple of the record size), is accepted.
\<close>

theorem Parse_range_checks_counterexample:
  "length header_only_file = sizeof_CowHeader \<and>
   fst (Parse example_format CowReader_new (open_file header_only_file)) = Inr () \<and>
   unat (ops_offset (decode_CowHeader header_only_file)) < sizeof_CowHeader \<and>
   unat (ops_size (decode_CowHeader header_only_file)) mod sizeof_CowOperation \<noteq> 0"
proof -
  have dec: "decode_CowHeader header_only_file = example_header 0 1"
    unfolding header_only_file_def
    using decode_encode_CowHeader [of "example_header 0 1" "[]"]
    by (simp add: example_header_def)
  have "Parse example_format CowReader_new (open_file header_only_file) =
      (header_verdict example_format (length (contents (open_file header_only_file)))
         (example_header 0 1),
       \<lparr> hdr = example_header 0 1,
         fd_size = of_nat (length (contents (open_file header_only_file))) \<rparr>,
       (open_file header_only_file)
         \<lparr>calls := calls (open_file header_only_file) @
            [SysLseekEnd, SysLseekSet 0, SysRead 0 sizeof_CowHeader],
          file_offset := sizeof_CowHeader\<rparr>)"
    by (rule Parse_plain [where rest = "[]"])
      (simp_all add: open_file_def header_only_file_def example_header_def sizeof_CowHeader_def)
  then have "fst (Parse example_format CowReader_new (open_file header_only_file)) = Inr ()"
    by (simp add: open_file_def header_only_file_def header_verdict_def example_header_def
        example_format_def sizeof_CowHeader_def)
  then show ?thesis
    by (simp add: dec) (simp add: header_only_file_def example_header_def
        sizeof_CowHeader_def sizeof_CowOperation_def)
qed

section \<open>Range validation of raw reads\<close>

text \<open>
  C1. On a reader that \<open>Parse\<close> accepted, \<open>GetRawBytes\<close> refuses every request whose
  offset lies below the header's end or at or after \<open>ops_offset\<close>, whose length is at
  least the file size, or whose true (unbounded) sum \<open>offset + len\<close> exceeds
  \<open>ops_offset\<close>; in particular every pair whose 64-bit sum overflows. The refusal is
  \<open>RangeError\<close> and the descriptor is returned as it was: no seek and no read is
  issued. The code adds in wrapping 64-bit arithmetic; after a successful parse the
  file size and \<open>ops_offset\<close> are below \<open>2^63\<close>, so the first three tests leave no pair
  whose sum wraps.
\<close>

theorem GetRawBytes_rejects_out_of_range:
  assumes parsed: "Parse fmt r0 fd0 = (Inr (), r, fd1)"
      and bad: "offset < of_nat sizeof_CowHeader \<or> ops_offset (hdr r) \<le> offset \<or>
                fd_size r \<le> len \<or>
                unat (ops_offset (hdr r)) < unat offset + unat len \<or>
                2 ^ 64 \<le> unat offset + unat len"
  shows "GetRawBytes r fd offset len = (Inl RangeError, fd)"
proof -
  from Parse_ok_fields [OF parsed]
  have small: "unat (fd_size r) < 2 ^ 63" and below: "ops_offset (hdr r) < fd_size r"
    by simp_all
  have "offset < of_nat sizeof_CowHeader \<or> ops_offset (hdr r) \<le> offset \<or>
        fd_size r \<le> len \<or> ops_offset (hdr r) < offset + len"
  proof (cases "offset < ops_offset (hdr r) \<and> len < fd_size r")
    case False
    then show ?thesis by (auto simp: not_less)
  next
    case True
    then have o: "unat offset < 2 ^ 63" and l: "unat len < 2 ^ 63"
      using small below by (simp_all add: word_less_nat_alt)
    then have sum: "unat (offset + len) = unat offset + unat len"
      by (simp add: unat_add_lem [THEN iffD1])
    from o l have "\<not> 2 ^ 64 \<le> unat offset + unat len" by simp
    with bad True sum show ?thesis
      by (auto simp: word_less_nat_alt word_le_nat_alt)
  qed
  then show ?thesis
    by (simp add: GetRawBytes_def)
qed

theorem GetRawBytes_rejects_out_of_range_witness:
  "Parse example_format CowReader_new (open_file example_file) =
     (Inr (), \<lparr> hdr = example_header 100 28, fd_size = 128 \<rparr>,
      \<lparr> contents = example_file, seekable = True, file_offset = 96, upcoming = [],
        calls = [SysLseekEnd, SysLseekSet 0, SysRead 0 96] \<rparr>) \<and>
   unat (ops_offset (hdr \<lparr> hdr = example_header 100 28, fd_size = 128 \<rparr>)) < unat (98 :: u64) + unat (4 :: u64) \<and>
   GetRawBytes \<lparr> hdr = example_header 100 28, fd_size = 128 \<rparr> (open_file example_file) 98 4 =
     (Inl RangeError, open_file example_file)"
proof -
  have bad: "unat (ops_offset (hdr \<lparr> hdr = example_header 100 28, fd_size = 128 \<rparr>))
      < unat (98 :: u64) + unat (4 :: u64)"
    by (simp add: example_header_def)
  then show ?thesis
    using GetRawBytes_rejects_out_of_range [OF Parse_example_file, of 98 4 "open_file example_file"]
      Parse_example_file
    by simp
qed

section \<open>The operation iterator\<close>

lemma slice_slice:
  "b + m \<le> n \<Longrightarrow> slice (slice xs a n) b m = slice xs (a + b) m"
  by (simp add: slice_def take_drop add.commute min_def)

lemma collect_from:
  assumes "length ops = k * sizeof_CowOperation" and "i \<le> k"
  shows "collect \<lparr> iter_ops = ops, iter_pos = i * sizeof_CowOperation,
                   iter_end = k * sizeof_CowOperation, iter_done = (i = k) \<rparr> =
         Inr (map (\<lambda>j. decode_CowOperation (slice ops (j * sizeof_CowOperation) sizeof_CowOperation))
                [i..<k])"
  using assms
proof (induction "k - i" arbitrary: i)
  case 0
  then have "i = k" by simp
  then show ?case
    by (subst collect.simps) (simp add: Done_def)
next
  case (Suc d)
  then have lt: "i < k" and d: "d = k - Suc i" by simp_all
  let ?it = "\<lparr> iter_ops = ops, iter_pos = i * sizeof_CowOperation,
                   iter_end = k * sizeof_CowOperation, iter_done = (i = k) \<rparr>"
  have room: "i * sizeof_CowOperation + sizeof_CowOperation \<le> k * sizeof_CowOperation"
    using lt by (metis Suc_leI mult_Suc add.commute mult_le_mono1)
  have hn: "HasNext ?it"
    using room by (simp add: HasNext_def sizeof_CowOperation_def)
  have g: "Get ?it = Inr (decode_CowOperation (slice ops (i * sizeof_CowOperation) sizeof_CowOperation))"
    using hn lt room Suc.prems(1) by (simp add: Get_def Done_def)
  have hn1: "HasNext (?it\<lparr>iter_pos := iter_pos ?it + sizeof_CowOperation\<rparr>) \<longleftrightarrow> Suc i \<noteq> k"
  proof -
    have "Suc i * sizeof_CowOperation < k * sizeof_CowOperation \<longleftrightarrow> Suc i < k"
      unfolding sizeof_CowOperation_def by arith
    moreover have "Suc i < k \<Longrightarrow> Suc (Suc i) * sizeof_CowOperation \<le> k * sizeof_CowOperation"
      by (metis Suc_leI mult_le_mono1)
    ultimately show ?thesis
      using lt by (auto simp: HasNext_def)
  qed
  have nx: "Next ?it = Inr \<lparr> iter_ops = ops, iter_pos = Suc i * sizeof_CowOperation,
                   iter_end = k * sizeof_CowOperation, iter_done = (Suc i = k) \<rparr>"
    using lt hn1 by (auto simp: Next_def Done_def Let_def)
  have ih: "collect \<lparr> iter_ops = ops, iter_pos = Suc i * sizeof_CowOperation,
                   iter_end = k * sizeof_CowOperation, iter_done = (Suc i = k) \<rparr> =
         Inr (map (\<lambda>j. decode_CowOperation (slice ops (j * sizeof_CowOperation) sizeof_CowOperation))
                [Suc i..<k])"
    using Suc.hyps(1) [OF d Suc.prems(1)] lt by simp
  show ?case
    using lt g nx ih
    by (subst collect.simps) (simp add: Done_def upt_conv_Cons)
qed

lemma lseek_set_ok:
  fixes w :: u64
  assumes "lseek_set fd (sint w) = (rv, fd1)" and "\<not> rv < 0"
  shows "fd1 = fd\<lparr>calls := calls fd @ [SysLseekSet (uint w)], file_offset := unat w\<rparr>"
proof -
  from assms have nn: "0 \<le> sint w"
    by (auto simp: lseek_set_def Let_def split: if_splits)
  have "sint w < 2 ^ 64"
    using sint_lt [of w] by simp
  with nn have "take_bit 64 (sint w) = sint w"
    by (simp add: take_bit_int_eq_self)
  then have "sint w = uint w"
    using uint_sint [of w] by simp
  with assms nn show ?thesis
    by (auto simp: lseek_set_def Let_def split: if_splits)
qed

lemma GetOpIter_ok:
  assumes "GetOpIter r fd = (Inr it, fd')"
  shows "it = CowOpIter_new (slice (contents fd) (unat (ops_offset (hdr r))) (unat (ops_size (hdr r))))
                (unat (ops_size (hdr r)))"
    and "length (slice (contents fd) (unat (ops_offset (hdr r))) (unat (ops_size (hdr r)))) =
           unat (ops_size (hdr r))"
    and "\<exists>new. calls fd' = calls fd @ SysLseekSet (uint (ops_offset (hdr r))) # new \<and>
           reads_within (unat (ops_offset (hdr r)))
             (unat (ops_offset (hdr r)) + unat (ops_size (hdr r))) new"
    and "contents fd' = contents fd"
proof -
  let ?off = "ops_offset (hdr r)" and ?n = "unat (ops_size (hdr r))"
  obtain rv fd1 where ls: "lseek_set fd (sint ?off) = (rv, fd1)"
    by (cases "lseek_set fd (sint ?off)")
  have rv: "\<not> rv < 0"
    using assms ls by (auto simp: GetOpIter_def)
  note fd1 = lseek_set_ok [OF ls rv]
  obtain ok bs fd2 where rf: "ReadFully fd1 ?n = ((ok, bs), fd2)"
    by (metis prod.exhaust)
  have ok: ok
    using assms ls rv rf by (auto simp: GetOpIter_def Let_def split: if_splits)
  have res: "it = CowOpIter_new bs ?n" "fd' = fd2"
    using assms ls rv rf ok by (auto simp: GetOpIter_def Let_def split: if_splits)
  from ReadFully_effect [OF rf] ok
  have bs: "bs = slice (contents fd1) (file_offset fd1) ?n" and len: "length bs = ?n"
    and c: "contents fd2 = contents fd1"
    and "\<exists>new. calls fd2 = calls fd1 @ new \<and>
           reads_within (file_offset fd1) (file_offset fd1 + ?n) new"
    by auto
  then obtain new where new: "calls fd2 = calls fd1 @ new"
    "reads_within (file_offset fd1) (file_offset fd1 + ?n) new"
    by blast
  show "it = CowOpIter_new (slice (contents fd) (unat ?off) ?n) ?n"
    using res bs fd1 by simp
  show "length (slice (contents fd) (unat ?off) ?n) = ?n"
    using bs len fd1 by simp
  show "contents fd' = contents fd"
    using res c fd1 by simp
  show "\<exists>new. calls fd' = calls fd @ SysLseekSet (uint ?off) # new \<and>
           reads_within (unat ?off) (unat ?off + ?n) new"
    using new res fd1 by (intro exI [of _ new]) simp
qed

lemma nat_multiple: "(n :: nat) mod m = 0 \<Longrightarrow> n = (n div m) * m"
  by auto

lemma lseek_set_plain:
  "seekable fd \<Longrightarrow> 0 \<le> off \<Longrightarrow>
   lseek_set fd off = (off, fd\<lparr>calls := calls fd @ [SysLseekSet off], file_offset := nat off\<rparr>)"
  by (simp add: lseek_set_def Let_def)

lemma GetOpIter_plain:
  assumes "seekable fd" and "upcoming fd = []"
    and "unat (ops_offset (hdr r)) + unat (ops_size (hdr r)) \<le> length (contents fd)"
    and "0 < unat (ops_size (hdr r))"
    and "sint (ops_offset (hdr r)) = uint (ops_offset (hdr r))"
    and "ops_checksum (hdr r) = replicate 32 0"
  shows "GetOpIter r fd =
           (Inr (CowOpIter_new
                   (slice (contents fd) (unat (ops_offset (hdr r))) (unat (ops_size (hdr r))))
                   (unat (ops_size (hdr r)))),
            fd\<lparr>calls := calls fd @
                 [SysLseekSet (uint (ops_offset (hdr r))),
                  SysRead (unat (ops_offset (hdr r))) (unat (ops_size (hdr r)))],
               file_offset := unat (ops_offset (hdr r)) + unat (ops_size (hdr r))\<rparr>)"
proof -
  let ?off = "unat (ops_offset (hdr r))" and ?n = "unat (ops_size (hdr r))"
  let ?fd1 = "fd\<lparr>calls := calls fd @ [SysLseekSet (uint (ops_offset (hdr r)))],
                 file_offset := ?off\<rparr>"
  have ls: "lseek_set fd (sint (ops_offset (hdr r))) = (uint (ops_offset (hdr r)), ?fd1)"
    using assms(1,5) lseek_set_plain [of fd "uint (ops_offset (hdr r))"] by simp
  have rd: "ReadFully ?fd1 ?n =
      ((True, slice (contents fd) ?off ?n),
       ?fd1\<lparr>calls := calls ?fd1 @ [SysRead ?off ?n], file_offset := ?off + ?n\<rparr>)"
    using assms ReadFully_plain [of ?fd1 ?n] by simp
  have "memcmp (replicate 32 0) (replicate 32 0) 32 = 0"
    using memcmp_eq_0_iff [of 32 "replicate 32 0" "replicate 32 0"] by simp
  then show ?thesis
    unfolding GetOpIter_def ls
    by (simp add: rd Let_def SHA256_def assms(6))
qed

lemma GetOpIter_two_op_file:
  "GetOpIter two_op_reader (open_file two_op_file) =
     (Inr (CowOpIter_new (op_record 1 @ op_record 2) 56),
      \<lparr> contents = two_op_file, seekable = True, file_offset = 152, upcoming = [],
        calls = [SysLseekSet 96, SysRead 96 56] \<rparr>)"
proof -
  have len: "length two_op_file = 152"
    by (simp add: two_op_file_def op_record_def sizeof_CowHeader_def)
  have sl: "slice two_op_file 96 56 = op_record 1 @ op_record 2"
    by (simp add: two_op_file_def slice_def op_record_def sizeof_CowHeader_def)
  show ?thesis
    using GetOpIter_plain [of "open_file two_op_file" two_op_reader]
    by (simp add: open_file_def two_op_reader_def example_header_def len sl)
qed

text \<open>
  C5. When \<open>GetOpIter\<close> returns an iterator and \<open>ops_size\<close> is a multiple of
  \<open>sizeof(CowOperation)\<close>, the caller's loop over the iterator ends without a failed
  \<open>CHECK\<close> or an out-of-bounds read and yields exactly \<open>ops_size / sizeof(CowOperation)\<close>
  records: the j-th is the record stored at \<open>ops_offset + j * sizeof(CowOperation)\<close> of
  the file. On the descriptor \<open>GetOpIter\<close> issued one seek to \<open>ops_offset\<close> and then only
  reads inside \<open>[ops_offset, ops_offset + ops_size)\<close>. With \<open>ops_size = 0\<close> the iterator
  is done as constructed.
\<close>

theorem GetOpIter_yields_all_records:
  assumes "GetOpIter r fd = (Inr it, fd')"
      and "unat (ops_size (hdr r)) mod sizeof_CowOperation = 0"
  shows "collect it =
           Inr (map (\<lambda>j. decode_CowOperation
                          (slice (contents fd)
                             (unat (ops_offset (hdr r)) + j * sizeof_CowOperation)
                             sizeof_CowOperation))
                  [0..<unat (ops_size (hdr r)) div sizeof_CowOperation]) \<and>
         (\<exists>new. calls fd' = calls fd @ SysLseekSet (uint (ops_offset (hdr r))) # new \<and>
            reads_within (unat (ops_offset (hdr r)))
              (unat (ops_offset (hdr r)) + unat (ops_size (hdr r))) new) \<and>
         (ops_size (hdr r) = 0 \<longrightarrow> Done it)"
proof -
  let ?off = "unat (ops_offset (hdr r))" and ?n = "unat (ops_size (hdr r))"
  let ?k = "?n div sizeof_CowOperation"
  let ?buf = "slice (contents fd) ?off ?n"
  note ok = GetOpIter_ok [OF assms(1)]
  have n: "?n = ?k * sizeof_CowOperation"
    using assms(2) by (rule nat_multiple)
  have len: "length ?buf = ?k * sizeof_CowOperation"
    using ok(2) n by simp
  have hn: "HasNext \<lparr> iter_ops = ?buf, iter_pos = 0, iter_end = 0 + ?n, iter_done = False \<rparr>
      \<longleftrightarrow> 0 \<noteq> ?k"
    by (subst (2 3) n) (auto simp: HasNext_def sizeof_CowOperation_def)
  have it: "it = \<lparr> iter_ops = ?buf, iter_pos = 0 * sizeof_CowOperation,
                   iter_end = ?k * sizeof_CowOperation, iter_done = (0 = ?k) \<rparr>"
    unfolding ok(1) CowOpIter_new_def Let_def hn using n by simp
  have "collect it =
      Inr (map (\<lambda>j. decode_CowOperation (slice ?buf (j * sizeof_CowOperation) sizeof_CowOperation))
             [0..<?k])"
    unfolding it using len by (rule collect_from) simp
  moreover have "slice ?buf (j * sizeof_CowOperation) sizeof_CowOperation =
      slice (contents fd) (?off + j * sizeof_CowOperation) sizeof_CowOperation"
    if "j < ?k" for j
  proof -
    from that have "Suc j * sizeof_CowOperation \<le> ?k * sizeof_CowOperation"
      by (metis Suc_leI mult_le_mono1)
    then have "j * sizeof_CowOperation + sizeof_CowOperation \<le> ?n"
      using n by simp
    then show ?thesis
      by (rule slice_slice)
  qed
  ultimately have "collect it =
      Inr (map (\<lambda>j. decode_CowOperation
                 (slice (contents fd) (?off + j * sizeof_CowOperation) sizeof_CowOperation))
             [0..<?k])"
    by simp
  moreover have "ops_size (hdr r) = 0 \<longrightarrow> Done it"
    unfolding it by (auto simp: Done_def)
  ultimately show ?thesis
    using ok(3) by simp
qed

theorem GetOpIter_yields_all_records_witness:
  "GetOpIter two_op_reader (open_file two_op_file) =
     (Inr (CowOpIter_new (op_record 1 @ op_record 2) 56),
      \<lparr> contents = two_op_file, seekable = True, file_offset = 152, upcoming = [],
        calls = [SysLseekSet 96, SysRead 96 56] \<rparr>) \<and>
   unat (ops_size (hdr two_op_reader)) mod sizeof_CowOperation = 0 \<and>
   collect (CowOpIter_new (op_record 1 @ op_record 2) 56) =
     Inr [decode_CowOperation (op_record 1), decode_CowOperation (op_record 2)] \<and>
   op_type (decode_CowOperation (op_record 1)) = 1 \<and>
   op_type (decode_CowOperation (op_record 2)) = 2"
proof -
  have m: "unat (ops_size (hdr two_op_reader)) mod sizeof_CowOperation = 0"
    by (simp add: two_op_reader_def example_header_def sizeof_CowOperation_def)
  have s0: "slice two_op_file 96 28 = op_record 1"
    by (simp add: two_op_file_def slice_def op_record_def sizeof_CowHeader_def)
  have s1: "slice two_op_file 124 28 = op_record 2"
    by (simp add: two_op_file_def slice_def op_record_def sizeof_CowHeader_def)
  have u: "[0..<2] = [0, Suc 0]"
    by (simp add: upt_rec)
  from GetOpIter_yields_all_records [OF GetOpIter_two_op_file m]
  have "collect (CowOpIter_new (op_record 1 @ op_record 2) 56) =
     Inr [decode_CowOperation (op_record 1), decode_CowOperation (op_record 2)]"
    by (simp add: two_op_reader_def example_header_def sizeof_CowOperation_def open_file_def
        u s0 s1)
  then show ?thesis
    using m GetOpIter_two_op_file
    by (simp add: decode_CowOperation_def op_record_def slice_def)
qed

section \<open>Raw reads inside the payload region\<close>

text \<open>
  C6 (as amended). For a request that passes the range tests, \<open>GetRawBytes\<close> seeks once
  and issues at most one \<open>read\<close>; it does not loop, and the byte source decides what it
  returns. If the seek fails (the descriptor cannot seek, or the offset is negative as
  an \<open>off_t\<close>) it fails with \<open>IoError\<close> and issues no \<open>read\<close>. If the seek succeeds and
  the one \<open>read\<close> fails, it fails with \<open>IoError\<close>. In every other case it succeeds, with
  exactly the bytes that one \<open>read\<close> delivered: the bytes of the file from \<open>offset\<close> on,
  as many as the kernel chose to deliver, at most \<open>len\<close> of them and possibly fewer (a
  short read or the end of the file is not an error); their number is what it reports.
  The second conjunct reads the same from the result: a success carries at most \<open>len\<close>
  bytes of the file at \<open>offset\<close>, after one seek and one \<open>read\<close>; a failure is an
  \<open>IoError\<close>, after a failed seek or a failed \<open>read\<close>.
\<close>

theorem GetRawBytes_single_read:
  assumes "\<not> offset < of_nat sizeof_CowHeader" and "offset < ops_offset (hdr r)"
      and "len < fd_size r" and "offset + len \<le> ops_offset (hdr r)"
  shows "GetRawBytes r fd offset len =
           (if \<not> seekable fd \<or> sint offset < 0
            then (Inl IoError, fd\<lparr>calls := calls fd @ [SysLseekSet (sint offset)]\<rparr>)
            else if next_read_fails fd
            then (Inl IoError,
                  fd\<lparr>calls := calls fd @
                       [SysLseekSet (uint offset), SysRead (unat offset) (unat len)],
                     upcoming := tl (upcoming fd), file_offset := unat offset\<rparr>)
            else (Inr (slice (contents fd) (unat offset) (next_read_count fd (unat len))),
                  fd\<lparr>calls := calls fd @
                       [SysLseekSet (uint offset), SysRead (unat offset) (unat len)],
                     upcoming := tl (upcoming fd),
                     file_offset := unat offset +
                       length (slice (contents fd) (unat offset)
                                 (next_read_count fd (unat len)))\<rparr>)) \<and>
         (\<exists>res fd'. GetRawBytes r fd offset len = (res, fd') \<and>
           (\<forall>bs. res = Inr bs \<longrightarrow>
              length bs \<le> unat len \<and>
              bs = slice (contents fd) (unat offset) (length bs) \<and>
              calls fd' = calls fd @ [SysLseekSet (uint offset), SysRead (unat offset) (unat len)]) \<and>
           (\<forall>e. res = Inl e \<longrightarrow>
              e = IoError \<and>
              (calls fd' = calls fd @ [SysLseekSet (sint offset)] \<or>
               calls fd' = calls fd @ [SysLseekSet (uint offset), SysRead (unat offset) (unat len)])))"
proof -
  have guard: "\<not> (offset < of_nat sizeof_CowHeader \<or> ops_offset (hdr r) \<le> offset \<or>
      fd_size r \<le> len \<or> ops_offset (hdr r) < offset + len)"
    using assms by (simp add: not_le not_less)
  let ?two = "calls fd @ [SysLseekSet (uint offset), SysRead (unat offset) (unat len)]"
  let ?n = "next_read_count fd (unat len)"
  let ?bs = "slice (contents fd) (unat offset) ?n"
  have n: "?n \<le> unat len"
    by (simp add: next_read_count_def split: list.splits read_behaviour.splits)
  have bs: "length ?bs \<le> unat len" "?bs = slice (contents fd) (unat offset) (length ?bs)"
    using n by (simp_all add: slice_length_slice) (simp add: slice_def)
  show ?thesis
  proof (cases "\<not> seekable fd \<or> sint offset < 0")
    case True
    then have "GetRawBytes r fd offset len =
        (Inl IoError, fd\<lparr>calls := calls fd @ [SysLseekSet (sint offset)]\<rparr>)"
      using guard by (auto simp: GetRawBytes_def lseek_set_def Let_def)
    with True show ?thesis by simp
  next
    case False
    let ?fd1 = "fd\<lparr>calls := calls fd @ [SysLseekSet (uint offset)], file_offset := unat offset\<rparr>"
    have "lseek_set fd (sint offset) = (sint offset, fd\<lparr>calls := calls fd @ [SysLseekSet (sint offset)],
        file_offset := nat (sint offset)\<rparr>)"
      using False by (simp add: lseek_set_def Let_def)
    moreover from this False have "fd\<lparr>calls := calls fd @ [SysLseekSet (sint offset)],
        file_offset := nat (sint offset)\<rparr> = ?fd1"
      using lseek_set_ok [of fd offset "sint offset"] by simp
    ultimately have ls: "lseek_set fd (sint offset) = (sint offset, ?fd1)"
      by simp
    show ?thesis
    proof (cases "next_read_fails fd")
      case True
      then have "GetRawBytes r fd offset len =
          (Inl IoError, fd\<lparr>calls := ?two, upcoming := tl (upcoming fd), file_offset := unat offset\<rparr>)"
        using guard False ls
        by (auto simp: GetRawBytes_def sys_read_def Let_def next_read_fails_def
            split: list.splits read_behaviour.splits)
      with True False show ?thesis by simp
    next
      case nf: False
      then have "GetRawBytes r fd offset len =
          (Inr ?bs, fd\<lparr>calls := ?two, upcoming := tl (upcoming fd),
             file_offset := unat offset + length ?bs\<rparr>)"
        using guard False ls
        by (auto simp: GetRawBytes_def sys_read_def Let_def next_read_fails_def
            next_read_count_def split: list.splits read_behaviour.splits)
      with nf False bs show ?thesis by simp
    qed
  qed
qed


lemma GetRawBytes_short_read:
  "GetRawBytes example_reader short_read_fd 96 4 =
     (Inr (replicate 2 0xAB),
      \<lparr> contents = example_file, seekable = True, file_offset = 98, upcoming = [],
        calls = [SysLseekSet 96, SysRead 96 4] \<rparr>)"
proof -
  have sl: "slice example_file 96 2 = (replicate 2 0xAB)"
    by (simp add: example_file_def slice_def sizeof_CowHeader_def)
  show ?thesis
    by (simp add: GetRawBytes_def example_reader_def example_header_def short_read_fd_def
        open_file_def sizeof_CowHeader_def lseek_set_def sys_read_def Let_def sl)
qed

theorem GetRawBytes_single_read_counterexample:
  "\<not> (96 :: u64) < of_nat sizeof_CowHeader \<and> (96 :: u64) < ops_offset (hdr example_reader) \<and>
   (4 :: u64) < fd_size example_reader \<and> (96 :: u64) + 4 \<le> ops_offset (hdr example_reader) \<and>
   fst (GetRawBytes example_reader short_read_fd 96 4) = Inr (replicate 2 0xAB) \<and>
   length (replicate 2 (0xAB :: u8)) < unat (4 :: u64) \<and>
   calls (snd (GetRawBytes example_reader short_read_fd 96 4)) = [SysLseekSet 96, SysRead 96 4]"
  by (simp add: GetRawBytes_short_read)
     (simp add: example_reader_def example_header_def sizeof_CowHeader_def)

theorem GetRawBytes_single_read_witness:
  "\<not> (96 :: u64) < of_nat sizeof_CowHeader \<and> (96 :: u64) < ops_offset (hdr example_reader) \<and>
   (4 :: u64) < fd_size example_reader \<and> (96 :: u64) + 4 \<le> ops_offset (hdr example_reader) \<and>
   GetRawBytes example_reader (open_file example_file) 96 4 =
     (Inr (replicate 4 0xAB),
      \<lparr> contents = example_file, seekable = True, file_offset = 100, upcoming = [],
        calls = [SysLseekSet 96, SysRead 96 4] \<rparr>) \<and>
   GetRawBytes example_reader short_read_fd 96 4 =
     (Inr (replicate 2 0xAB),
      \<lparr> contents = example_file, seekable = True, file_offset = 98, upcoming = [],
        calls = [SysLseekSet 96, SysRead 96 4] \<rparr>) \<and>
   GetRawBytes example_reader failing_read_fd 96 4 =
     (Inl IoError,
      \<lparr> contents = example_file, seekable = True, file_offset = 96, upcoming = [],
        calls = [SysLseekSet 96, SysRead 96 4] \<rparr>) \<and>
   GetRawBytes example_reader unseekable_fd 96 4 =
     (Inl IoError,
      \<lparr> contents = example_file, seekable = False, file_offset = 0, upcoming = [],
        calls = [SysLseekSet 96] \<rparr>)"
proof -
  have a: "\<not> (96 :: u64) < of_nat sizeof_CowHeader" "(96 :: u64) < ops_offset (hdr example_reader)"
    "(4 :: u64) < fd_size example_reader" "(96 :: u64) + 4 \<le> ops_offset (hdr example_reader)"
    by (simp_all add: example_reader_def example_header_def sizeof_CowHeader_def)
  note T = GetRawBytes_single_read [OF a, THEN conjunct1]
  have sl: "slice example_file 96 4 = replicate 4 0xAB" "slice example_file 96 2 = replicate 2 0xAB"
    by (simp_all add: example_file_def slice_def sizeof_CowHeader_def)
  have "GetRawBytes example_reader (open_file example_file) 96 4 =
     (Inr (replicate 4 0xAB),
      \<lparr> contents = example_file, seekable = True, file_offset = 100, upcoming = [],
        calls = [SysLseekSet 96, SysRead 96 4] \<rparr>)"
    by (simp add: T open_file_def next_read_fails_def next_read_count_def sl)
  moreover have "GetRawBytes example_reader short_read_fd 96 4 =
     (Inr (replicate 2 0xAB),
      \<lparr> contents = example_file, seekable = True, file_offset = 98, upcoming = [],
        calls = [SysLseekSet 96, SysRead 96 4] \<rparr>)"
    by (simp add: T short_read_fd_def open_file_def next_read_fails_def next_read_count_def sl)
  moreover have "GetRawBytes example_reader failing_read_fd 96 4 =
     (Inl IoError,
      \<lparr> contents = example_file, seekable = True, file_offset = 96, upcoming = [],
        calls = [SysLseekSet 96, SysRead 96 4] \<rparr>)"
    by (simp add: T failing_read_fd_def open_file_def next_read_fails_def)
  moreover have "GetRawBytes example_reader unseekable_fd 96 4 =
     (Inl IoError,
      \<lparr> contents = example_file, seekable = False, file_offset = 0, upcoming = [],
        calls = [SysLseekSet 96] \<rparr>)"
    by (simp add: T unseekable_fd_def open_file_def)
  ultimately show ?thesis
    using a by simp
qed

section \<open>The checksums\<close>

lemma Parse_example_like:
  assumes "length (header_checksum h) = 32" and "length (ops_checksum h) = 32"
  shows "fst (Parse fmt r (open_file (encode_CowHeader h @ payload_and_op))) =
           header_verdict fmt 128 h"
proof -
  have "Parse fmt r (open_file (encode_CowHeader h @ payload_and_op)) =
      (header_verdict fmt (length (contents (open_file (encode_CowHeader h @ payload_and_op)))) h,
       \<lparr> hdr = h,
         fd_size = of_nat (length (contents (open_file (encode_CowHeader h @ payload_and_op)))) \<rparr>,
       (open_file (encode_CowHeader h @ payload_and_op))
         \<lparr>calls := calls (open_file (encode_CowHeader h @ payload_and_op)) @
            [SysLseekEnd, SysLseekSet 0, SysRead 0 sizeof_CowHeader],
          file_offset := sizeof_CowHeader\<rparr>)"
    using assms
    by (intro Parse_plain [where rest = payload_and_op])
       (simp_all add: open_file_def payload_and_op_def sizeof_CowHeader_def)
  then show ?thesis
    by (simp add: open_file_def payload_and_op_def sizeof_CowHeader_def)
qed

lemma Cons_neq_replicate:
  "x \<noteq> y \<Longrightarrow> x # xs \<noteq> replicate n y"
  by (cases n) auto

lemma Parse_ok_zero_checksum:
  assumes "fst (Parse fmt r0 fd) = Inr ()"
  shows "header_checksum (decode_CowHeader (slice (contents fd) 0 sizeof_CowHeader)) =
           replicate 32 0"
proof -
  from assms have "fst (Parse fmt r0 fd) \<noteq> Inl IoError"
    by simp
  from Parse_verdict [OF this] assms
  have "header_verdict fmt (length (contents fd))
          (decode_CowHeader (slice (contents fd) 0 sizeof_CowHeader)) = Inr ()"
    by (metis fst_conv)
  then show ?thesis
    by (simp add: header_verdict_def split: if_splits)
qed


text \<open>
  C3. The digest \<open>Parse\<close> compares the stored \<open>header_checksum\<close> with is the zeroed
  buffer the compiled-out \<open>SHA256\<close> leaves behind, not the SHA-256 of the header:
  whatever the file, \<open>Parse\<close> succeeds only if the stored checksum is all zero. The
  example header and the same header with another \<open>block_size\<close> are both accepted with
  an all-zero checksum field, and the example header carrying its true digest is
  refused with \<open>ChecksumMismatch\<close>.
\<close>

theorem Parse_ignores_header_digest:
  "(\<forall>fmt r0 fd. fst (Parse fmt r0 fd) = Inr () \<longrightarrow>
      header_checksum (decode_CowHeader (slice (contents fd) 0 sizeof_CowHeader)) =
        replicate 32 0) \<and>
   fst (Parse example_format CowReader_new
          (open_file (encode_CowHeader (example_header 100 28) @ payload_and_op))) = Inr () \<and>
   fst (Parse example_format CowReader_new
          (open_file (encode_CowHeader ((example_header 100 28)\<lparr>block_size := 8192\<rparr>) @
             payload_and_op))) = Inr () \<and>
   fst (Parse example_format CowReader_new
          (open_file (encode_CowHeader
             ((example_header 100 28)\<lparr>header_checksum := example_header_digest\<rparr>) @
             payload_and_op))) = Inl ChecksumMismatch \<and>
   SHA256 (encode_CowHeader (example_header 100 28)) sizeof_CowHeader (replicate 32 0) =
     replicate 32 0"
proof -
  have "fst (Parse example_format CowReader_new
          (open_file (encode_CowHeader (example_header 100 28) @ payload_and_op))) = Inr () \<and>
   fst (Parse example_format CowReader_new
          (open_file (encode_CowHeader ((example_header 100 28)\<lparr>block_size := 8192\<rparr>) @
             payload_and_op))) = Inr () \<and>
   fst (Parse example_format CowReader_new
          (open_file (encode_CowHeader
             ((example_header 100 28)\<lparr>header_checksum := example_header_digest\<rparr>) @
             payload_and_op))) = Inl ChecksumMismatch \<and>
   SHA256 (encode_CowHeader (example_header 100 28)) sizeof_CowHeader (replicate 32 0) =
     replicate 32 0"
    by (simp add: Parse_example_like example_header_def example_header_digest_def)
       (simp add: header_verdict_def example_format_def sizeof_CowHeader_def SHA256_def
          Cons_neq_replicate)
  then show ?thesis
    using Parse_ok_zero_checksum by blast
qed

theorem Parse_ignores_header_digest_witness:
  "fst (Parse example_format CowReader_new
          (open_file (encode_CowHeader (example_header 100 28) @ payload_and_op))) = Inr () \<and>
   header_checksum (decode_CowHeader (slice (contents
      (open_file (encode_CowHeader (example_header 100 28) @ payload_and_op)))
      0 sizeof_CowHeader)) = replicate 32 0 \<and>
   example_header_digest \<noteq> replicate 32 0"
proof -
  from Parse_ignores_header_digest
  have ok: "fst (Parse example_format CowReader_new
          (open_file (encode_CowHeader (example_header 100 28) @ payload_and_op))) = Inr ()"
    and gen: "\<And>fmt r0 fd. fst (Parse fmt r0 fd) = Inr () \<Longrightarrow>
      header_checksum (decode_CowHeader (slice (contents fd) 0 sizeof_CowHeader)) =
        replicate 32 0"
    by blast+
  from gen [OF ok] ok show ?thesis
    by (simp add: example_header_digest_def Cons_neq_replicate)
qed

lemma Parse_mutated_two_op_file:
  "Parse example_format CowReader_new (open_file mutated_two_op_file) =
     (Inr (), two_op_reader,
      \<lparr> contents = mutated_two_op_file, seekable = True, file_offset = 96, upcoming = [],
        calls = [SysLseekEnd, SysLseekSet 0, SysRead 0 96] \<rparr>)"
proof -
  have len: "length mutated_two_op_file = 152"
    by (simp add: mutated_two_op_file_def op_record_def sizeof_CowHeader_def)
  have "Parse example_format CowReader_new (open_file mutated_two_op_file) =
      (header_verdict example_format (length (contents (open_file mutated_two_op_file)))
         (example_header 96 56),
       \<lparr> hdr = example_header 96 56,
         fd_size = of_nat (length (contents (open_file mutated_two_op_file))) \<rparr>,
       (open_file mutated_two_op_file)
         \<lparr>calls := calls (open_file mutated_two_op_file) @
            [SysLseekEnd, SysLseekSet 0, SysRead 0 sizeof_CowHeader],
          file_offset := sizeof_CowHeader\<rparr>)"
    by (rule Parse_plain [where rest = "op_record 3 @ op_record 2"])
      (simp_all add: open_file_def len, simp_all add: mutated_two_op_file_def example_header_def)
  then show ?thesis
    by (simp add: open_file_def len header_verdict_def example_header_def
        example_format_def sizeof_CowHeader_def two_op_reader_def)
qed

lemma GetOpIter_ok_zero_checksum:
  assumes "GetOpIter r fd = (Inr it, fd')" and "length (ops_checksum (hdr r)) = 32"
  shows "ops_checksum (hdr r) = replicate 32 0"
proof -
  have "memcmp (replicate 32 0) (ops_checksum (hdr r)) 32 = 0"
    using assms(1)
    by (auto simp: GetOpIter_def Let_def SHA256_def split: prod.splits if_splits)
  with memcmp_eq_0_iff [of 32 "replicate 32 0" "ops_checksum (hdr r)"] assms(2)
  show ?thesis by simp
qed

text \<open>
  C4. Likewise \<open>GetOpIter\<close> compares \<open>ops_checksum\<close> with the zeroed buffer: it
  returns an iterator only if the stored digest is all zero, whatever the operation
  table holds. The two-record file and the file with one bit of its operation table
  flipped are both parsed, and both get their iterator, under the same all-zero
  stored digest.
\<close>

theorem GetOpIter_ignores_ops_digest:
  "(\<forall>r fd it fd'. GetOpIter r fd = (Inr it, fd') \<and> length (ops_checksum (hdr r)) = 32 \<longrightarrow>
      ops_checksum (hdr r) = replicate 32 0) \<and>
   fst (Parse example_format CowReader_new (open_file mutated_two_op_file)) = Inr () \<and>
   fst (snd (Parse example_format CowReader_new (open_file mutated_two_op_file))) = two_op_reader \<and>
   fst (GetOpIter two_op_reader (open_file two_op_file)) =
     Inr (CowOpIter_new (op_record 1 @ op_record 2) 56) \<and>
   fst (GetOpIter two_op_reader (open_file mutated_two_op_file)) =
     Inr (CowOpIter_new (op_record 3 @ op_record 2) 56) \<and>
   ops_checksum (hdr two_op_reader) = replicate 32 0"
proof -
  have len: "length mutated_two_op_file = 152"
    by (simp add: mutated_two_op_file_def op_record_def sizeof_CowHeader_def)
  have sl: "slice mutated_two_op_file 96 56 = op_record 3 @ op_record 2"
    by (simp add: mutated_two_op_file_def slice_def op_record_def sizeof_CowHeader_def)
  have "fst (GetOpIter two_op_reader (open_file mutated_two_op_file)) =
     Inr (CowOpIter_new (op_record 3 @ op_record 2) 56)"
    using GetOpIter_plain [of "open_file mutated_two_op_file" two_op_reader]
    by (simp add: open_file_def two_op_reader_def example_header_def len sl)
  then have "fst (Parse example_format CowReader_new (open_file mutated_two_op_file)) = Inr () \<and>
   fst (snd (Parse example_format CowReader_new (open_file mutated_two_op_file))) = two_op_reader \<and>
   fst (GetOpIter two_op_reader (open_file two_op_file)) =
     Inr (CowOpIter_new (op_record 1 @ op_record 2) 56) \<and>
   fst (GetOpIter two_op_reader (open_file mutated_two_op_file)) =
     Inr (CowOpIter_new (op_record 3 @ op_record 2) 56) \<and>
   ops_checksum (hdr two_op_reader) = replicate 32 0"
    by (simp add: Parse_mutated_two_op_file GetOpIter_two_op_file)
       (simp add: two_op_reader_def example_header_def)
  then show ?thesis
    using GetOpIter_ok_zero_checksum by blast
qed

theorem GetOpIter_ignores_ops_digest_witness:
  "fst (GetOpIter two_op_reader (open_file mutated_two_op_file)) =
     Inr (CowOpIter_new (op_record 3 @ op_record 2) 56) \<and>
   slice mutated_two_op_file 96 56 \<noteq> slice two_op_file 96 56"
proof -
  have "slice mutated_two_op_file 96 56 = op_record 3 @ op_record 2"
    by (simp add: mutated_two_op_file_def slice_def op_record_def sizeof_CowHeader_def)
  moreover have "slice two_op_file 96 56 = op_record 1 @ op_record 2"
    by (simp add: two_op_file_def slice_def op_record_def sizeof_CowHeader_def)
  ultimately show ?thesis
    using GetOpIter_ignores_ops_digest by (simp add: op_record_def)
qed

section \<open>Substring search\<close>

text \<open>\<open>str_find\<close> finds a pattern exactly when it occurs as a contiguous substring.\<close>

lemma starts_with_iff: "starts_with s pat \<longleftrightarrow> (\<exists>post. s = pat @ post)"
  by (induction s pat rule: starts_with.induct) auto

lemma str_find_iff: "str_find s pat \<noteq> None \<longleftrightarrow> (\<exists>pre post. s = pre @ pat @ post)"
proof (induction s)
  case Nil
  show ?case by auto
next
  case (Cons c cs)
  show ?case
  proof (cases "starts_with (c # cs) pat")
    case True
    then obtain post where "c # cs = [] @ pat @ post"
      by (auto simp: starts_with_iff)
    then have "\<exists>pre post. c # cs = pre @ pat @ post"
      by blast
    with True show ?thesis by simp
  next
    case False
    have "(\<exists>pre post. c # cs = pre @ pat @ post) \<longleftrightarrow> (\<exists>pre post. cs = pre @ pat @ post)"
    proof
      assume "\<exists>pre post. c # cs = pre @ pat @ post"
      then obtain pre post where eq: "c # cs = pre @ pat @ post" by blast
      show "\<exists>pre post. cs = pre @ pat @ post"
      proof (cases pre)
        case Nil
        with eq False show ?thesis by (auto simp: starts_with_iff)
      next
        case (Cons p pre')
        with eq have "cs = pre' @ pat @ post" by simp
        then show ?thesis by blast
      qed
    next
      assume "\<exists>pre post. cs = pre @ pat @ post"
      then obtain pre post where "cs = pre @ pat @ post" by blast
      then have "c # cs = (c # pre) @ pat @ post" by simp
      then show "\<exists>pre post. c # cs = pre @ pat @ post" by blast
    qed
    with False Cons show ?thesis by simp
  qed
qed

section \<open>Connecting: first stage, then second stage\<close>

lemma ConnectToServerSocket_trace:
  assumes "ConnectToServerSocket name s = (res, s')"
  shows "\<exists>t. trace s' = trace s @ t \<and> t \<noteq> [] \<and> hd t = Connect name \<and>
           (res = Inr True \<longrightarrow> active_attempt name t) \<and>
           (res = Inr False \<longrightarrow> failed_attempt name t)"
  using assms
  by (auto simp: ConnectToServerSocket_def socket_local_client_def Sendmsg_def Receivemsg_def
      DisconnectFromServer_def close_sockfd_def Let_def split: prod.splits if_splits)

lemma ConnectToServerSocket_refused:
  "\<not> connect_ok a \<Longrightarrow>
     ConnectToServerSocket name a =
       (Inr False,
        a\<lparr>sockfd := shd (connect_results a), connect_results := stl (connect_results a),
          trace := trace a @ [Connect name]\<rparr>)"
  by (simp add: ConnectToServerSocket_def socket_local_client_def connect_ok_def Let_def)

lemma ConnectToServerSocket_unsent:
  "connect_ok a \<Longrightarrow> \<not> query_ok a \<Longrightarrow>
     ConnectToServerSocket name a =
       (Inr False,
        a\<lparr>sockfd := shd (connect_results a), connect_results := stl (connect_results a),
          send_results := stl (send_results a),
          trace := trace a @ [Connect name, Send ''query'', Close]\<rparr>)"
  by (auto simp: ConnectToServerSocket_def socket_local_client_def connect_ok_def query_ok_def
      Sendmsg_def DisconnectFromServer_def close_sockfd_def Let_def)

lemma ConnectToServerSocket_replied:
  assumes "connect_ok a" and "query_ok a"
  shows "ConnectToServerSocket name a =
       (if str_find (next_reply a) ''fail'' \<noteq> None \<or> str_find (next_reply a) ''passive'' \<noteq> None
        then (Inr False,
              a\<lparr>sockfd := shd (connect_results a), connect_results := stl (connect_results a),
                send_results := stl (send_results a), recv_results := stl (recv_results a),
                trace := trace a @ [Connect name, Send ''query'', Receive (next_reply a), Close]\<rparr>)
        else (if str_find (next_reply a) ''active'' \<noteq> None then Inr True else Inl Aborted,
              a\<lparr>sockfd := shd (connect_results a), connect_results := stl (connect_results a),
                send_results := stl (send_results a), recv_results := stl (recv_results a),
                trace := trace a @ [Connect name, Send ''query'', Receive (next_reply a)]\<rparr>))"
proof -
  have q: "\<not> shd (send_results a) (length ''query'') < 0"
    "\<not> nat (shd (send_results a) (length ''query'')) < length ''query''"
    using assms(2) unfolding query_ok_def by linarith+
  show ?thesis
    using assms(1) q
    by (simp add: ConnectToServerSocket_def socket_local_client_def connect_ok_def
        Sendmsg_def Receivemsg_def next_reply_def DisconnectFromServer_def close_sockfd_def Let_def)
qed

lemma ConnectToServer_chain:
  "ConnectToServer cfg s =
     (if fst (ConnectToServerSocket (GetSocketNameFirstStage cfg) s) = Inr False
      then ConnectToServerSocket (GetSocketNameSecondStage cfg)
             (snd (ConnectToServerSocket (GetSocketNameFirstStage cfg) s))
      else ConnectToServerSocket (GetSocketNameFirstStage cfg) s)"
  by (auto simp: ConnectToServer_def split: prod.splits sum.splits bool.splits)


text \<open>
  C8. Whatever the environment does, a call of \<open>ConnectToServer\<close> that returns starts
  with an attempt on the first-stage socket. It returns \<open>true\<close> only when that attempt
  got a reply classified active (and then nothing else is tried), or when that attempt
  failed and the attempt on the second-stage socket, made next, got such a reply. It
  returns \<open>false\<close> only after a failed attempt on each socket, first stage then second
  stage.

  In the other direction, \<open>ConnectToServer\<close> goes on to the second-stage socket, from
  the state the first attempt left, whenever the first attempt returned \<open>false\<close>, and
  its result is then the second attempt's; otherwise its result is the first attempt's.
  And the environment decides what an attempt on a socket does: a refused connect gives
  \<open>false\<close> at once (there is no connection to close); a query that cannot be sent in
  full gives \<open>false\<close> after closing the connection; a reply that carries \<open>fail\<close> or
  \<open>passive\<close> gives \<open>false\<close> after closing the connection, and so does a receive that
  fails or times out, which \<open>Receivemsg\<close> reports as \<open>"fail"\<close>; a reply that carries
  neither gives \<open>true\<close> and leaves the connection open when it carries \<open>active\<close>, and
  fails the \<open>CHECK\<close> (the process aborts, nothing is returned) when it does not.
\<close>

theorem ConnectToServer_fallback:
  "(ConnectToServer cfg s = (res, s') \<longrightarrow>
      (\<exists>t1 t2. trace s' = trace s @ t1 @ t2 \<and>
         t1 \<noteq> [] \<and> hd t1 = Connect (GetSocketNameFirstStage cfg) \<and>
         (res = Inr True \<longrightarrow>
            active_attempt (GetSocketNameFirstStage cfg) t1 \<and> t2 = [] \<or>
            failed_attempt (GetSocketNameFirstStage cfg) t1 \<and>
            active_attempt (GetSocketNameSecondStage cfg) t2) \<and>
         (res = Inr False \<longrightarrow>
            failed_attempt (GetSocketNameFirstStage cfg) t1 \<and>
            failed_attempt (GetSocketNameSecondStage cfg) t2))) \<and>
   (fst (ConnectToServerSocket (GetSocketNameFirstStage cfg) s) = Inr False \<longrightarrow>
      ConnectToServer cfg s =
        ConnectToServerSocket (GetSocketNameSecondStage cfg)
          (snd (ConnectToServerSocket (GetSocketNameFirstStage cfg) s))) \<and>
   (fst (ConnectToServerSocket (GetSocketNameFirstStage cfg) s) \<noteq> Inr False \<longrightarrow>
      ConnectToServer cfg s = ConnectToServerSocket (GetSocketNameFirstStage cfg) s) \<and>
   (\<not> connect_ok a \<longrightarrow>
      ConnectToServerSocket name a =
        (Inr False,
         a\<lparr>sockfd := shd (connect_results a), connect_results := stl (connect_results a),
           trace := trace a @ [Connect name]\<rparr>)) \<and>
   (connect_ok a \<and> \<not> query_ok a \<longrightarrow>
      ConnectToServerSocket name a =
        (Inr False,
         a\<lparr>sockfd := shd (connect_results a), connect_results := stl (connect_results a),
           send_results := stl (send_results a),
           trace := trace a @ [Connect name, Send ''query'', Close]\<rparr>)) \<and>
   (connect_ok a \<and> query_ok a \<and>
    (str_find (next_reply a) ''fail'' \<noteq> None \<or> str_find (next_reply a) ''passive'' \<noteq> None) \<longrightarrow>
      ConnectToServerSocket name a =
        (Inr False,
         a\<lparr>sockfd := shd (connect_results a), connect_results := stl (connect_results a),
           send_results := stl (send_results a), recv_results := stl (recv_results a),
           trace := trace a @ [Connect name, Send ''query'', Receive (next_reply a), Close]\<rparr>)) \<and>
   (connect_ok a \<and> query_ok a \<and>
    str_find (next_reply a) ''fail'' = None \<and> str_find (next_reply a) ''passive'' = None \<longrightarrow>
      ConnectToServerSocket name a =
        (if str_find (next_reply a) ''active'' \<noteq> None then Inr True else Inl Aborted,
         a\<lparr>sockfd := shd (connect_results a), connect_results := stl (connect_results a),
           send_results := stl (send_results a), recv_results := stl (recv_results a),
           trace := trace a @ [Connect name, Send ''query'', Receive (next_reply a)]\<rparr>))"
proof -
  have backward: "\<exists>t1 t2. trace s' = trace s @ t1 @ t2 \<and>
         t1 \<noteq> [] \<and> hd t1 = Connect (GetSocketNameFirstStage cfg) \<and>
         (res = Inr True \<longrightarrow>
            active_attempt (GetSocketNameFirstStage cfg) t1 \<and> t2 = [] \<or>
            failed_attempt (GetSocketNameFirstStage cfg) t1 \<and>
            active_attempt (GetSocketNameSecondStage cfg) t2) \<and>
         (res = Inr False \<longrightarrow>
            failed_attempt (GetSocketNameFirstStage cfg) t1 \<and>
            failed_attempt (GetSocketNameSecondStage cfg) t2)"
    if run: "ConnectToServer cfg s = (res, s')"
  proof -
    obtain r1 s1 where a1: "ConnectToServerSocket (GetSocketNameFirstStage cfg) s = (r1, s1)"
      by (cases "ConnectToServerSocket (GetSocketNameFirstStage cfg) s")
    from ConnectToServerSocket_trace [OF a1] obtain t1
      where t1: "trace s1 = trace s @ t1" "t1 \<noteq> []" "hd t1 = Connect (GetSocketNameFirstStage cfg)"
        "r1 = Inr True \<longrightarrow> active_attempt (GetSocketNameFirstStage cfg) t1"
        "r1 = Inr False \<longrightarrow> failed_attempt (GetSocketNameFirstStage cfg) t1"
      by blast
    show ?thesis
    proof (cases "r1 = Inr False")
      case False
      then have "res = r1" "s' = s1"
        using run a1 by (auto simp: ConnectToServer_def split: sum.splits bool.splits)
      with False t1 show ?thesis
        by (intro exI [of _ t1] exI [of _ "[]"]) simp
    next
      case True
      obtain r2 s2 where a2: "ConnectToServerSocket (GetSocketNameSecondStage cfg) s1 = (r2, s2)"
        by (cases "ConnectToServerSocket (GetSocketNameSecondStage cfg) s1")
      from ConnectToServerSocket_trace [OF a2] obtain t2
        where t2: "trace s2 = trace s1 @ t2"
          "r2 = Inr True \<longrightarrow> active_attempt (GetSocketNameSecondStage cfg) t2"
          "r2 = Inr False \<longrightarrow> failed_attempt (GetSocketNameSecondStage cfg) t2"
        by blast
      have "res = r2" "s' = s2"
        using run a1 a2 True by (auto simp: ConnectToServer_def split: sum.splits bool.splits)
      with True t1 t2 show ?thesis
        by (intro exI [of _ t1] exI [of _ t2]) simp
    qed
  qed
  note chain = ConnectToServer_chain [of cfg s]
  note refused = ConnectToServerSocket_refused [of a name]
  note unsent = ConnectToServerSocket_unsent [of a name]
  note replied = ConnectToServerSocket_replied [of a name]
  show ?thesis
  proof (intro conjI impI)
    assume "ConnectToServer cfg s = (res, s')"
    then show "\<exists>t1 t2. trace s' = trace s @ t1 @ t2 \<and>
         t1 \<noteq> [] \<and> hd t1 = Connect (GetSocketNameFirstStage cfg) \<and>
         (res = Inr True \<longrightarrow>
            active_attempt (GetSocketNameFirstStage cfg) t1 \<and> t2 = [] \<or>
            failed_attempt (GetSocketNameFirstStage cfg) t1 \<and>
            active_attempt (GetSocketNameSecondStage cfg) t2) \<and>
         (res = Inr False \<longrightarrow>
            failed_attempt (GetSocketNameFirstStage cfg) t1 \<and>
            failed_attempt (GetSocketNameSecondStage cfg) t2)"
      by (rule backward)
  qed (use chain refused unsent replied in \<open>simp_all\<close>)
qed


theorem ConnectToServer_fallback_witness:
  "ConnectToServer example_config (environment [''passive'', ''active'']) =
     (Inr True,
      \<lparr> sockfd = 3, connect_results = sconst 3, send_results = sconst int,
        recv_results = sconst SelectTimeout, fork_results = sconst ForkParent,
        trace = [Connect ''snapuserd_first_stage'', Send ''query'', Receive ''passive'', Close,
                 Connect ''snapuserd'', Send ''query'', Receive ''active''] \<rparr>) \<and>
   failed_attempt ''snapuserd_first_stage''
     [Connect ''snapuserd_first_stage'', Send ''query'', Receive ''passive'', Close] \<and>
   active_attempt ''snapuserd'' [Connect ''snapuserd'', Send ''query'', Receive ''active''] \<and>
   connect_ok (environment [''fail'', ''active'']) \<and> query_ok (environment [''fail'', ''active'']) \<and>
   next_reply (environment [''fail'', ''active'']) = ''fail'' \<and>
   ConnectToServerSocket ''snapuserd_first_stage'' (environment [''fail'', ''active'']) =
     (Inr False,
      \<lparr> sockfd = 3, connect_results = sconst 3, send_results = sconst int,
        recv_results = [Received ''active''] @- sconst SelectTimeout,
        fork_results = sconst ForkParent,
        trace = [Connect ''snapuserd_first_stage'', Send ''query'', Receive ''fail'', Close] \<rparr>) \<and>
   ConnectToServer example_config (environment [''fail'', ''active'']) =
     (Inr True,
      \<lparr> sockfd = 3, connect_results = sconst 3, send_results = sconst int,
        recv_results = sconst SelectTimeout, fork_results = sconst ForkParent,
        trace = [Connect ''snapuserd_first_stage'', Send ''query'', Receive ''fail'', Close,
                 Connect ''snapuserd'', Send ''query'', Receive ''active''] \<rparr>) \<and>
   \<not> connect_ok refused_environment \<and>
   ConnectToServer example_config refused_environment =
     (Inr True,
      \<lparr> sockfd = 3, connect_results = sconst 3, send_results = sconst int,
        recv_results = sconst SelectTimeout, fork_results = sconst ForkParent,
        trace = [Connect ''snapuserd_first_stage'',
                 Connect ''snapuserd'', Send ''query'', Receive ''active''] \<rparr>) \<and>
   connect_ok unsent_environment \<and> \<not> query_ok unsent_environment \<and>
   ConnectToServer example_config unsent_environment =
     (Inr True,
      \<lparr> sockfd = 3, connect_results = sconst 3, send_results = sconst int,
        recv_results = sconst SelectTimeout, fork_results = sconst ForkParent,
        trace = [Connect ''snapuserd_first_stage'', Send ''query'', Close,
                 Connect ''snapuserd'', Send ''query'', Receive ''active''] \<rparr>) \<and>
   next_reply (environment []) = ''fail'' \<and>
   ConnectToServer example_config (environment []) =
     (Inr False,
      \<lparr> sockfd = 3, connect_results = sconst 3, send_results = sconst int,
        recv_results = sconst SelectTimeout, fork_results = sconst ForkParent,
        trace = [Connect ''snapuserd_first_stage'', Send ''query'', Receive ''fail'', Close,
                 Connect ''snapuserd'', Send ''query'', Receive ''fail'', Close] \<rparr>)"
proof -
  let ?first = "''snapuserd_first_stage''"
  let ?done = "\<lambda>t. \<lparr> sockfd = 3, connect_results = sconst 3, send_results = sconst int,
        recv_results = sconst SelectTimeout, fork_results = sconst ForkParent, trace = t \<rparr>"
  note T = ConnectToServer_fallback
  have names: "GetSocketNameFirstStage example_config = ?first"
    "GetSocketNameSecondStage example_config = ''snapuserd''"
    by (simp_all add: example_config_def)
  have env: "connect_ok (environment rs)" "query_ok (environment rs)"
    "next_reply (environment (r # rs)) = r" "next_reply (environment []) = ''fail''"
    for r rs
    by (simp_all add: connect_ok_def query_ok_def next_reply_def environment_def)
  have others: "\<not> connect_ok refused_environment"
    "connect_ok unsent_environment" "\<not> query_ok unsent_environment"
    by (simp_all add: connect_ok_def query_ok_def refused_environment_def
        unsent_environment_def environment_def)
  have reply_closes: "ConnectToServerSocket name a =
        (Inr False,
         a\<lparr>sockfd := shd (connect_results a), connect_results := stl (connect_results a),
           send_results := stl (send_results a), recv_results := stl (recv_results a),
           trace := trace a @ [Connect name, Send ''query'', Receive (next_reply a), Close]\<rparr>)"
    if "connect_ok a" "query_ok a"
      "str_find (next_reply a) ''fail'' \<noteq> None \<or> str_find (next_reply a) ''passive'' \<noteq> None"
    for name a
    using T [where cfg = example_config and s = a and res = "Inr True" and s' = a
        and a = a and name = name] that
    by blast
  have reply_active: "ConnectToServerSocket name a =
        (Inr True,
         a\<lparr>sockfd := shd (connect_results a), connect_results := stl (connect_results a),
           send_results := stl (send_results a), recv_results := stl (recv_results a),
           trace := trace a @ [Connect name, Send ''query'', Receive (next_reply a)]\<rparr>)"
    if "connect_ok a" "query_ok a" "str_find (next_reply a) ''fail'' = None"
      "str_find (next_reply a) ''passive'' = None" "str_find (next_reply a) ''active'' \<noteq> None"
    for name a
    using T [where cfg = example_config and s = a and res = "Inr True" and s' = a
        and a = a and name = name] that
    by simp
  have connect_refused: "ConnectToServerSocket name a =
        (Inr False,
         a\<lparr>sockfd := shd (connect_results a), connect_results := stl (connect_results a),
           trace := trace a @ [Connect name]\<rparr>)"
    if "\<not> connect_ok a" for name a
    using T [where cfg = example_config and s = a and res = "Inr True" and s' = a
        and a = a and name = name] that
    by blast
  have query_unsent: "ConnectToServerSocket name a =
        (Inr False,
         a\<lparr>sockfd := shd (connect_results a), connect_results := stl (connect_results a),
           send_results := stl (send_results a),
           trace := trace a @ [Connect name, Send ''query'', Close]\<rparr>)"
    if "connect_ok a" "\<not> query_ok a" for name a
    using T [where cfg = example_config and s = a and res = "Inr True" and s' = a
        and a = a and name = name] that
    by blast
  have falls_back: "ConnectToServer example_config e =
      ConnectToServerSocket ''snapuserd'' e1"
    if "ConnectToServerSocket ?first e = (Inr False, e1)" for e e1
    using T [where cfg = example_config and s = e and res = "Inr True" and s' = e
        and a = e and name = ?first] that
    by (simp add: names)
  have first_passive: "ConnectToServerSocket ?first (environment [''passive'', ''active'']) =
     (Inr False,
      (environment [''active''])\<lparr>sockfd := 3,
        trace := [Connect ?first, Send ''query'', Receive ''passive'', Close] \<rparr>)"
    using reply_closes [of "environment [''passive'', ''active'']" ?first]
    by (simp add: env) (simp add: environment_def)
  have first_fail: "ConnectToServerSocket ?first (environment [''fail'', ''active'']) =
     (Inr False,
      (environment [''active''])\<lparr>sockfd := 3,
        trace := [Connect ?first, Send ''query'', Receive ''fail'', Close] \<rparr>)"
    using reply_closes [of "environment [''fail'', ''active'']" ?first]
    by (simp add: env) (simp add: environment_def)
  have first_refused: "ConnectToServerSocket ?first refused_environment =
     (Inr False, (environment [''active''])\<lparr>trace := [Connect ?first] \<rparr>)"
    using connect_refused [of refused_environment ?first]
    by (simp add: others) (simp add: refused_environment_def environment_def)
  have first_unsent: "ConnectToServerSocket ?first unsent_environment =
     (Inr False, (environment [''active''])\<lparr>sockfd := 3,
        trace := [Connect ?first, Send ''query'', Close] \<rparr>)"
    using query_unsent [of unsent_environment ?first]
    by (simp add: others) (simp add: unsent_environment_def environment_def)
  have first_silent: "ConnectToServerSocket ?first (environment []) =
     (Inr False, (environment [])\<lparr>sockfd := 3,
        trace := [Connect ?first, Send ''query'', Receive ''fail'', Close] \<rparr>)"
    using reply_closes [of "environment []" ?first]
    by (simp add: env) (simp add: environment_def)
  have second_active: "ConnectToServerSocket ''snapuserd''
      ((environment [''active''])\<lparr>sockfd := k, trace := t\<rparr>) =
      (Inr True, ?done (t @ [Connect ''snapuserd'', Send ''query'', Receive ''active'']))" for k t
    using reply_active [of "(environment [''active''])\<lparr>sockfd := k, trace := t\<rparr>" "''snapuserd''"]
    by (simp add: environment_def connect_ok_def query_ok_def next_reply_def)
  have second_silent: "ConnectToServerSocket ''snapuserd''
      ((environment [])\<lparr>sockfd := k, trace := t\<rparr>) =
      (Inr False, ?done (t @ [Connect ''snapuserd'', Send ''query'', Receive ''fail'', Close]))"
    for k t
    using reply_closes [of "(environment [])\<lparr>sockfd := k, trace := t\<rparr>" "''snapuserd''"]
    by (simp add: environment_def connect_ok_def query_ok_def next_reply_def)
  have r1: "ConnectToServer example_config (environment [''passive'', ''active'']) =
      (Inr True, ?done [Connect ?first, Send ''query'', Receive ''passive'', Close,
                 Connect ''snapuserd'', Send ''query'', Receive ''active''])"
    by (simp add: falls_back [OF first_passive] second_active)
  have r2: "ConnectToServer example_config (environment [''fail'', ''active'']) =
      (Inr True, ?done [Connect ?first, Send ''query'', Receive ''fail'', Close,
                 Connect ''snapuserd'', Send ''query'', Receive ''active''])"
    by (simp add: falls_back [OF first_fail] second_active)
  have r3: "ConnectToServer example_config refused_environment =
      (Inr True, ?done [Connect ?first,
                 Connect ''snapuserd'', Send ''query'', Receive ''active''])"
    using second_active [where k = "- 1" and t = "[Connect ?first]"]
    by (simp add: falls_back [OF first_refused] environment_def)
  have r4: "ConnectToServer example_config unsent_environment =
      (Inr True, ?done [Connect ?first, Send ''query'', Close,
                 Connect ''snapuserd'', Send ''query'', Receive ''active''])"
    by (simp add: falls_back [OF first_unsent] second_active)
  have r5: "ConnectToServer example_config (environment []) =
      (Inr False, ?done [Connect ?first, Send ''query'', Receive ''fail'', Close,
                 Connect ''snapuserd'', Send ''query'', Receive ''fail'', Close])"
    by (simp add: falls_back [OF first_silent] second_silent)
  show ?thesis
    using r1 r2 r3 r4 r5 first_fail
    by (simp add: env others) (simp add: environment_def)
qed

section \<open>Replies that carry \<open>fail\<close>\<close>

lemma Receivemsg_reply:
  "Receivemsg s = (str, s') \<Longrightarrow>
     str = (case shd (recv_results s) of Received msg \<Rightarrow> msg | _ \<Rightarrow> ''fail'')"
  by (auto simp: Receivemsg_def Let_def)

lemma socket_local_client_recv [simp]:
  "recv_results (snd (socket_local_client name s)) = recv_results s"
  by (simp add: socket_local_client_def)

lemma Sendmsg_recv [simp]: "recv_results (snd (Sendmsg msg s)) = recv_results s"
  by (simp add: Sendmsg_def Let_def)

lemma ConnectToServerSocket_fail:
  assumes "shd (recv_results s) = Received str" and "str_find str ''fail'' \<noteq> None"
  shows "fst (ConnectToServerSocket name s) = Inr False"
  using assms
  by (simp add: ConnectToServerSocket_def socket_local_client_def Sendmsg_def Receivemsg_def
      Let_def split: prod.splits)

lemma ConnectToServerSocket_active_reply:
  assumes "ConnectToServerSocket name s = (Inr True, s')"
  shows "\<exists>r. shd (recv_results s) = Received r \<and> str_find r ''fail'' = None \<and>
           str_find r ''passive'' = None \<and> str_find r ''active'' \<noteq> None"
  using assms
  by (auto simp: ConnectToServerSocket_def socket_local_client_def Sendmsg_def Receivemsg_def
      Let_def split: prod.splits if_splits recv_outcome.splits)

lemma InitializeSnapuserd_fail:
  assumes "ConnectToServer cfg s = (Inr True, s1)"
    and "shd (recv_results s1) = Received str" and "str_find str ''fail'' \<noteq> None"
  shows "fst (InitializeSnapuserd cfg cow base ctl s) = Inr (- 1)"
  using assms
  by (simp add: InitializeSnapuserd_def Sendmsg_def Receivemsg_def Let_def split: prod.splits)

lemma RestartSnapuserd_fail:
  assumes "ConnectToServer cfg s = (Inr True, s1)"
    and "shd (recv_results s1) = Received str" and "str_find str ''fail'' \<noteq> None"
  shows "fst (RestartSnapuserd cfg vec s) = Inr (- 1)"
  using assms
  by (simp add: RestartSnapuserd_def Sendmsg_def Receivemsg_def Let_def split: prod.splits)

lemma ConnectToServerSocket_true_last:
  assumes "ConnectToServerSocket name s = (Inr True, s')"
  shows "\<exists>r. last (trace s') = Receive r \<and> str_find r ''fail'' = None"
  using assms
  by (auto simp: ConnectToServerSocket_def socket_local_client_def Sendmsg_def Receivemsg_def
      Let_def split: prod.splits if_splits)

lemma ConnectToServer_true_last:
  assumes "ConnectToServer cfg s = (Inr True, s')"
  shows "\<exists>r. last (trace s') = Receive r \<and> str_find r ''fail'' = None"
proof -
  obtain r1 s1 where a1: "ConnectToServerSocket (GetSocketNameFirstStage cfg) s = (r1, s1)"
    by (cases "ConnectToServerSocket (GetSocketNameFirstStage cfg) s")
  show ?thesis
  proof (cases "r1 = Inr False")
    case False
    then have "r1 = Inr True" "s' = s1"
      using assms a1 by (auto simp: ConnectToServer_def split: sum.splits bool.splits)
    with a1 show ?thesis
      by (auto dest: ConnectToServerSocket_true_last)
  next
    case True
    obtain r2 s2 where a2: "ConnectToServerSocket (GetSocketNameSecondStage cfg) s1 = (r2, s2)"
      by (cases "ConnectToServerSocket (GetSocketNameSecondStage cfg) s1")
    have "r2 = Inr True" "s' = s2"
      using assms a1 a2 True by (auto simp: ConnectToServer_def split: sum.splits bool.splits)
    with a2 show ?thesis
      by (auto dest: ConnectToServerSocket_true_last)
  qed
qed

text \<open>
  C10. A reply that contains \<open>fail\<close> is a failure whatever else it contains: the
  attempt of \<open>ConnectToServerSocket\<close> that receives it returns \<open>false\<close> (so an attempt
  that returned \<open>true\<close> received no such reply, and a \<open>ConnectToServer\<close> that returned
  \<open>true\<close> did not end on one), and \<open>InitializeSnapuserd\<close> and \<open>RestartSnapuserd\<close>
  return \<open>-1\<close> when it is the reply to their \<open>start\<close> or \<open>terminate-request\<close> message,
  that is the reply received after their \<open>ConnectToServer\<close> succeeded. The words
  \<open>passive\<close>, \<open>active\<close> and \<open>success\<close> are looked for only afterwards.
\<close>

theorem fail_reply_takes_precedence:
  assumes "str_find str ''fail'' \<noteq> None"
  shows "(shd (recv_results s) = Received str \<longrightarrow>
            fst (ConnectToServerSocket name s) = Inr False) \<and>
         (ConnectToServerSocket name s = (Inr True, s') \<longrightarrow>
            shd (recv_results s) \<noteq> Received str) \<and>
         (ConnectToServer cfg s = (Inr True, s1) \<longrightarrow> last (trace s1) \<noteq> Receive str) \<and>
         (ConnectToServer cfg s = (Inr True, s1) \<and> shd (recv_results s1) = Received str \<longrightarrow>
            fst (InitializeSnapuserd cfg cow_device backing_device control_device s) = Inr (- 1)) \<and>
         (ConnectToServer cfg s = (Inr True, s1) \<and> shd (recv_results s1) = Received str \<longrightarrow>
            fst (RestartSnapuserd cfg vec s) = Inr (- 1))"
proof (intro conjI impI)
  assume "shd (recv_results s) = Received str"
  then show "fst (ConnectToServerSocket name s) = Inr False"
    using assms by (rule ConnectToServerSocket_fail)
next
  assume "ConnectToServerSocket name s = (Inr True, s')"
  from ConnectToServerSocket_active_reply [OF this] assms
  show "shd (recv_results s) \<noteq> Received str"
    by auto
next
  assume "ConnectToServer cfg s = (Inr True, s1)"
  from ConnectToServer_true_last [OF this] assms
  show "last (trace s1) \<noteq> Receive str"
    by auto
next
  assume "ConnectToServer cfg s = (Inr True, s1) \<and> shd (recv_results s1) = Received str"
  then show "fst (InitializeSnapuserd cfg cow_device backing_device control_device s) = Inr (- 1)"
    using assms by (auto intro: InitializeSnapuserd_fail)
next
  assume "ConnectToServer cfg s = (Inr True, s1) \<and> shd (recv_results s1) = Received str"
  then show "fst (RestartSnapuserd cfg vec s) = Inr (- 1)"
    using assms by (auto intro: RestartSnapuserd_fail)
qed

lemma ConnectToServer_active:
  "ConnectToServer example_config (environment [''active'', mixed_reply]) =
     (Inr True,
      \<lparr> sockfd = 3, connect_results = sconst 3, send_results = sconst int,
        recv_results = [Received mixed_reply] @- sconst SelectTimeout,
        fork_results = sconst ForkParent,
        trace = [Connect ''snapuserd_first_stage'', Send ''query'', Receive ''active''] \<rparr>)"
  by (simp add: ConnectToServer_def ConnectToServerSocket_def socket_local_client_def
      Sendmsg_def Receivemsg_def DisconnectFromServer_def close_sockfd_def Let_def example_config_def
      environment_def)

theorem fail_reply_takes_precedence_witness:
  "str_find mixed_reply ''fail'' \<noteq> None \<and> str_find mixed_reply ''active'' \<noteq> None \<and>
   str_find mixed_reply ''success'' \<noteq> None \<and>
   fst (ConnectToServerSocket ''snapuserd'' (environment [mixed_reply])) = Inr False \<and>
   fst (InitializeSnapuserd example_config ''system_cow'' ''system_a'' ''system_ctrl''
          (environment [''active'', mixed_reply])) = Inr (- 1) \<and>
   fst (RestartSnapuserd example_config [] (environment [''active'', mixed_reply])) = Inr (- 1)"
proof -
  have f: "str_find mixed_reply ''fail'' \<noteq> None"
    by (simp add: mixed_reply_def)
  have h: "shd (recv_results (environment [mixed_reply])) = Received mixed_reply"
    by (simp add: environment_def)
  have h1: "shd (recv_results
      \<lparr> sockfd = 3, connect_results = sconst 3, send_results = sconst int,
        recv_results = [Received mixed_reply] @- sconst SelectTimeout,
        fork_results = sconst ForkParent,
        trace = [Connect ''snapuserd_first_stage'', Send ''query'', Receive ''active''] \<rparr>)
      = Received mixed_reply"
    by simp
  from fail_reply_takes_precedence [OF f, where s = "environment [mixed_reply]"
      and name = "''snapuserd''"] h
  have a: "fst (ConnectToServerSocket ''snapuserd'' (environment [mixed_reply])) = Inr False"
    by blast
  from fail_reply_takes_precedence [OF f, where cfg = example_config
      and s = "environment [''active'', mixed_reply]"
      and cow_device = "''system_cow''" and backing_device = "''system_a''"
      and control_device = "''system_ctrl''" and vec = "[]"] ConnectToServer_active h1
  have b: "fst (InitializeSnapuserd example_config ''system_cow'' ''system_a'' ''system_ctrl''
          (environment [''active'', mixed_reply])) = Inr (- 1)"
    and c: "fst (RestartSnapuserd example_config [] (environment [''active'', mixed_reply])) =
      Inr (- 1)"
    by blast+
  from f a b c show ?thesis
    by (simp add: mixed_reply_def)
qed

section \<open>The device vectors of \<open>RestartSnapuserd\<close>\<close>

lemma ConnectToServerSocket_in_range:
  "fst (ConnectToServerSocket name s) \<noteq> Inl VectorOutOfRange"
  by (simp add: ConnectToServerSocket_def Let_def split: prod.splits)

lemma ConnectToServer_in_range:
  "fst (ConnectToServer cfg s) \<noteq> Inl VectorOutOfRange"
proof -
  have a: "fst (ConnectToServerSocket (GetSocketNameFirstStage cfg) s) \<noteq> Inl VectorOutOfRange"
    by (rule ConnectToServerSocket_in_range)
  have b: "fst (ConnectToServerSocket (GetSocketNameSecondStage cfg) s1) \<noteq> Inl VectorOutOfRange"
    for s1 by (rule ConnectToServerSocket_in_range)
  show ?thesis
    using a b
    by (auto simp: ConnectToServer_def split: prod.splits sum.splits bool.splits)
       (metis fst_conv)+
qed

lemma connect_retry_in_range:
  "fst (connect_retry cfg n s) \<noteq> Inl VectorOutOfRange"
proof (induction cfg n s rule: connect_retry.induct)
  case (1 cfg retry_count s)
  show ?case
  proof (cases "retry_count < MAX_CONNECT_RETRY_COUNT cfg")
    case False
    then show ?thesis
      by (subst connect_retry.simps) simp
  next
    case True
    obtain r s1 where c: "ConnectToServer cfg s = (r, s1)"
      by (cases "ConnectToServer cfg s")
    with ConnectToServer_in_range [of cfg s] have r: "r \<noteq> Inl VectorOutOfRange"
      by simp
    show ?thesis
    proof (cases r)
      case (Inl h)
      with r c True show ?thesis
        by (subst connect_retry.simps) simp
    next
      case (Inr ok)
      with c True "1.IH" [OF True c [symmetric] Inr] show ?thesis
        by (subst connect_retry.simps) simp
    qed
  qed
qed

lemma StartSnapuserdaemon_in_range:
  "fst (StartSnapuserdaemon cfg name s) \<noteq> Inl VectorOutOfRange"
  by (simp add: StartSnapuserdaemon_def Let_def connect_retry_in_range
      split: fork_outcome.splits)

lemma InitializeSnapuserd_in_range:
  "fst (InitializeSnapuserd cfg cow base ctl s) \<noteq> Inl VectorOutOfRange"
  using ConnectToServer_in_range [of cfg s]
  by (auto simp: InitializeSnapuserd_def Let_def split: prod.splits sum.splits)

lemma initialize_all_in_range:
  "\<forall>v\<in>set vec. 3 \<le> length v \<Longrightarrow> fst (initialize_all cfg vec s) \<noteq> Inl VectorOutOfRange"
proof (induction vec arbitrary: s)
  case Nil
  show ?case by simp
next
  case (Cons v vs)
  then have len: "3 \<le> length v" and rest: "\<forall>v\<in>set vs. 3 \<le> length v"
    by simp_all
  obtain r s1 where i: "InitializeSnapuserd cfg (v ! 0) (v ! 1) (v ! 2) s = (r, s1)"
    by (cases "InitializeSnapuserd cfg (v ! 0) (v ! 1) (v ! 2) s")
  with InitializeSnapuserd_in_range [of cfg "v ! 0" "v ! 1" "v ! 2" s]
  have r: "r \<noteq> Inl VectorOutOfRange" by simp
  from len have idx: "0 < length v" "Suc 0 < length v" "2 < length v"
    by auto
  show ?case
    using idx i r Cons.IH [OF rest, of s1]
    by (cases r) (simp_all add: at_index_def)
qed

lemma RestartSnapuserd_in_range:
  assumes "\<forall>v\<in>set vec. 3 \<le> length v"
  shows "fst (RestartSnapuserd cfg vec s) \<noteq> Inl VectorOutOfRange"
proof -
  have a: "fst (initialize_all cfg vec s4) \<noteq> Inl VectorOutOfRange" for s4
    using assms by (rule initialize_all_in_range)
  have b: "fst (StartSnapuserdaemon cfg name s3) \<noteq> Inl VectorOutOfRange" for name s3
    by (rule StartSnapuserdaemon_in_range)
  have c: "fst (ConnectToServer cfg s) \<noteq> Inl VectorOutOfRange"
    by (rule ConnectToServer_in_range)
  show ?thesis
    using c
    apply (simp add: RestartSnapuserd_def split: prod.splits sum.splits)
    apply (intro allI impI conjI)
    apply (auto dest: arg_cong [where f = fst] simp: a b)
    done
qed

lemma Sendmsg_cooperative:
  assumes "cooperative s"
  shows "\<exists>s'. Sendmsg msg s = (0, s') \<and> cooperative s'"
  using assms by (simp add: cooperative_def Sendmsg_def Let_def)

lemma Receivemsg_cooperative:
  assumes "cooperative s"
  shows "\<exists>s'. Receivemsg s = (''active success'', s') \<and> cooperative s'"
  using assms by (simp add: cooperative_def Receivemsg_def Let_def)

lemma ConnectToServerSocket_cooperative:
  assumes "cooperative s"
  shows "\<exists>s'. ConnectToServerSocket name s = (Inr True, s') \<and> cooperative s'"
  using assms
  by (simp add: cooperative_def ConnectToServerSocket_def socket_local_client_def Sendmsg_def
      Receivemsg_def Let_def)

lemma ConnectToServer_cooperative:
  assumes "cooperative s"
  shows "\<exists>s'. ConnectToServer cfg s = (Inr True, s') \<and> cooperative s'"
  using ConnectToServerSocket_cooperative [OF assms, of "GetSocketNameFirstStage cfg"]
  by (auto simp: ConnectToServer_def)

lemma InitializeSnapuserd_cooperative:
  assumes "cooperative s"
  shows "\<exists>s'. InitializeSnapuserd cfg cow base ctl s = (Inr 0, s') \<and> cooperative s'"
proof -
  from ConnectToServer_cooperative [OF assms] obtain s1
    where c: "ConnectToServer cfg s = (Inr True, s1)" and s1: "cooperative s1"
    by blast
  show ?thesis
    using c s1
    by (simp add: InitializeSnapuserd_def cooperative_def Sendmsg_def Receivemsg_def
        DisconnectFromServer_def close_sockfd_def Let_def)
qed

lemma StartSnapuserdaemon_cooperative:
  assumes "cooperative s" and "0 < MAX_CONNECT_RETRY_COUNT cfg"
  shows "\<exists>s'. StartSnapuserdaemon cfg name s = (Inr 0, s') \<and> cooperative s'"
proof -
  let ?s1 = "s\<lparr>fork_results := stl (fork_results s), trace := trace s @ [Fork name]\<rparr>"
  have s1: "cooperative ?s1"
    using assms(1) by (simp add: cooperative_def)
  from ConnectToServer_cooperative [OF s1] obtain s2
    where c: "ConnectToServer cfg ?s1 = (Inr True, s2)" and s2: "cooperative s2"
    by blast
  have "connect_retry cfg 0 ?s1 = (Inr 0, close_sockfd s2)"
    using assms(2) c by (subst connect_retry.simps) simp
  moreover have "cooperative (close_sockfd s2)"
    using s2 by (simp add: cooperative_def DisconnectFromServer_def close_sockfd_def)
  ultimately show ?thesis
    using assms(1) by (simp add: StartSnapuserdaemon_def Let_def cooperative_def)
qed

lemma initialize_all_short:
  assumes "\<exists>v\<in>set vec. length v < 3" and "cooperative s"
  shows "fst (initialize_all cfg vec s) = Inl VectorOutOfRange"
  using assms
proof (induction vec arbitrary: s)
  case Nil
  then show ?case by simp
next
  case (Cons v vs)
  show ?case
  proof (cases "length v < 3")
    case True
    then show ?thesis
      by (auto simp: at_index_def)
  next
    case False
    then have idx: "0 < length v" "Suc 0 < length v" "2 < length v"
      by auto
    from False Cons.prems(1) have rest: "\<exists>v\<in>set vs. length v < 3"
      by auto
    from InitializeSnapuserd_cooperative [OF Cons.prems(2)] obtain s1
      where i: "InitializeSnapuserd cfg (v ! 0) (v ! 1) (v ! 2) s = (Inr 0, s1)"
        and s1: "cooperative s1"
      by blast
    show ?thesis
      using idx i Cons.IH [OF rest s1] by (simp add: at_index_def)
  qed
qed

lemma RestartSnapuserd_short:
  assumes "\<exists>v\<in>set vec. length v < 3" and "cooperative s"
    and "0 < MAX_CONNECT_RETRY_COUNT cfg"
  shows "fst (RestartSnapuserd cfg vec s) = Inl VectorOutOfRange"
proof -
  from ConnectToServer_cooperative [OF assms(2)] obtain s1
    where c: "ConnectToServer cfg s = (Inr True, s1)" and s1: "cooperative s1"
    by blast
  from Sendmsg_cooperative [OF s1] obtain s2
    where snd: "Sendmsg ''terminate-request'' s1 = (0, s2)" and s2: "cooperative s2"
    by blast
  from Receivemsg_cooperative [OF s2] obtain s3
    where rcv: "Receivemsg s2 = (''active success'', s3)" and s3: "cooperative s3"
    by blast
  have "cooperative (DisconnectFromServer s3)"
    using s3 by (simp add: cooperative_def DisconnectFromServer_def close_sockfd_def)
  from StartSnapuserdaemon_cooperative [OF this assms(3)] obtain s4
    where st: "StartSnapuserdaemon cfg (GetSocketNameSecondStage cfg) (DisconnectFromServer s3)
        = (Inr 0, s4)" and s4: "cooperative s4"
    by blast
  from initialize_all_short [OF assms(1) s4]
  have "fst (initialize_all cfg vec s4) = Inl VectorOutOfRange" .
  then obtain s5 where "initialize_all cfg vec s4 = (Inl VectorOutOfRange, s5)"
    by (cases "initialize_all cfg vec s4") simp
  then show ?thesis
    unfolding RestartSnapuserd_def c
    by (simp add: snd rcv st)
qed

text \<open>
  C9. \<open>RestartSnapuserd\<close> reads elements 0, 1 and 2 of every inner vector without a
  length check. No environment leads its loop over the vectors to an out-of-range
  index exactly when every inner vector holds at least three strings. The same holds
  of the whole call when the retry budget is positive (with a budget of zero the
  daemon start-up fails and the loop is never reached); that vectors of length three
  or more keep the call in range needs no such proviso.
\<close>

theorem RestartSnapuserd_index_precondition:
  "((\<forall>s. fst (initialize_all cfg vec s) \<noteq> Inl VectorOutOfRange) \<longleftrightarrow>
      (\<forall>v\<in>set vec. 3 \<le> length v)) \<and>
   (0 < MAX_CONNECT_RETRY_COUNT cfg \<longrightarrow>
      ((\<forall>s. fst (RestartSnapuserd cfg vec s) \<noteq> Inl VectorOutOfRange) \<longleftrightarrow>
       (\<forall>v\<in>set vec. 3 \<le> length v))) \<and>
   ((\<forall>v\<in>set vec. 3 \<le> length v) \<longrightarrow>
      (\<forall>s. fst (RestartSnapuserd cfg vec s) \<noteq> Inl VectorOutOfRange))"
proof -
  have coop: "cooperative cooperative_environment"
    by (simp add: cooperative_def cooperative_environment_def)
  have short: "\<exists>v\<in>set vec. length v < 3" if "\<not> (\<forall>v\<in>set vec. 3 \<le> length v)"
    using that by (auto simp: not_le)
  have loop: "(\<forall>s. fst (initialize_all cfg vec s) \<noteq> Inl VectorOutOfRange) \<longleftrightarrow>
      (\<forall>v\<in>set vec. 3 \<le> length v)"
  proof
    assume safe: "\<forall>s. fst (initialize_all cfg vec s) \<noteq> Inl VectorOutOfRange"
    show "\<forall>v\<in>set vec. 3 \<le> length v"
    proof (rule ccontr)
      assume "\<not> (\<forall>v\<in>set vec. 3 \<le> length v)"
      from initialize_all_short [OF short [OF this] coop, of cfg] safe show False
        by simp
    qed
  next
    assume "\<forall>v\<in>set vec. 3 \<le> length v"
    then show "\<forall>s. fst (initialize_all cfg vec s) \<noteq> Inl VectorOutOfRange"
      by (simp add: initialize_all_in_range)
  qed
  have safe: "\<forall>s. fst (RestartSnapuserd cfg vec s) \<noteq> Inl VectorOutOfRange"
    if "\<forall>v\<in>set vec. 3 \<le> length v"
    using that by (simp add: RestartSnapuserd_in_range)
  have whole: "(\<forall>s. fst (RestartSnapuserd cfg vec s) \<noteq> Inl VectorOutOfRange) \<longleftrightarrow>
      (\<forall>v\<in>set vec. 3 \<le> length v)"
    if budget: "0 < MAX_CONNECT_RETRY_COUNT cfg"
  proof
    assume never: "\<forall>s. fst (RestartSnapuserd cfg vec s) \<noteq> Inl VectorOutOfRange"
    show "\<forall>v\<in>set vec. 3 \<le> length v"
    proof (rule ccontr)
      assume "\<not> (\<forall>v\<in>set vec. 3 \<le> length v)"
      from RestartSnapuserd_short [OF short [OF this] coop budget] never show False
        by simp
    qed
  next
    assume "\<forall>v\<in>set vec. 3 \<le> length v"
    then show "\<forall>s. fst (RestartSnapuserd cfg vec s) \<noteq> Inl VectorOutOfRange"
      by (rule safe)
  qed
  from loop whole safe show ?thesis
    by blast
qed

theorem RestartSnapuserd_index_precondition_witness:
  "0 < MAX_CONNECT_RETRY_COUNT example_config \<and>
   fst (RestartSnapuserd example_config [example_triple] cooperative_environment)
     \<noteq> Inl VectorOutOfRange \<and>
   fst (RestartSnapuserd example_config [[''system_cow'', ''system_a'']] cooperative_environment)
     = Inl VectorOutOfRange"
proof -
  have m: "0 < MAX_CONNECT_RETRY_COUNT example_config"
    by (simp add: example_config_def)
  have "\<forall>v\<in>set [example_triple]. 3 \<le> length v"
    by (simp add: example_triple_def)
  with RestartSnapuserd_index_precondition [of example_config "[example_triple]"] m
  have "fst (RestartSnapuserd example_config [example_triple] cooperative_environment)
     \<noteq> Inl VectorOutOfRange"
    by blast
  moreover have "cooperative cooperative_environment"
    by (simp add: cooperative_def cooperative_environment_def)
  then have "fst (RestartSnapuserd example_config [[''system_cow'', ''system_a'']]
      cooperative_environment) = Inl VectorOutOfRange"
    by (intro RestartSnapuserd_short m) simp_all
  ultimately show ?thesis
    using m by simp
qed

section \<open>The value \<open>RestartSnapuserd\<close> returns\<close>

lemmas client_defs =
  ConnectToServer_def ConnectToServerSocket_def socket_local_client_def
  Sendmsg_def Receivemsg_def DisconnectFromServer_def close_sockfd_def sleep_for_def Let_def
  InitializeSnapuserd_def StartSnapuserdaemon_def RestartSnapuserd_def at_index_def
  example_config_def environment_def

text \<open>
  C7. In the handoff below every step succeeds until the second-stage daemon answers
  \<open>fail\<close> to the \<open>start\<close> message of the one device triple: \<open>InitializeSnapuserd\<close>
  returns \<open>-1\<close> there, and \<open>RestartSnapuserd\<close>, which drops that value, returns \<open>0\<close>.
\<close>

theorem RestartSnapuserd_ignores_initialize:
  "RestartSnapuserd example_config [example_triple] (environment (handoff_replies @ [''fail''])) =
     (Inr 0,
      \<lparr> sockfd = 3, connect_results = sconst 3, send_results = sconst int,
        recv_results = sconst SelectTimeout, fork_results = sconst ForkParent,
        trace =
          [Connect ''snapuserd_first_stage'', Send ''query'', Receive ''active'',
           Send ''terminate-request'', Receive ''success'', Close,
           Fork ''snapuserd'',
           Connect ''snapuserd_first_stage'', Send ''query'', Receive ''passive'', Close,
           Connect ''snapuserd'', Send ''query'', Receive ''active'', Close,
           Connect ''snapuserd_first_stage'', Send ''query'', Receive ''passive'', Close,
           Connect ''snapuserd'', Send ''query'', Receive ''active'',
           Send ''start,system_cow,system_a,system_ctrl'', Receive ''fail''] \<rparr>) \<and>
   fst (InitializeSnapuserd example_config ''system_cow'' ''system_a'' ''system_ctrl''
          (environment [''passive'', ''active'', ''fail''])) = Inr (- 1)"
  by (simp add: client_defs connect_retry.simps [of _ 0] handoff_replies_def example_triple_def)

end
